theory Spec2Isabelle
  imports Complex_Main
begin

section \<open>Python strings\<close>

text \<open>
  A Python \<open>str\<close> is modelled as a \<open>string\<close> whose characters are the code points
  0 to 255. On that range \<open>str.isspace\<close> holds for the twelve characters below, and the
  regular-expression class \<open>\d\<close> holds for the digits 0 to 9 only.
\<close>

definition py_isspace :: "char \<Rightarrow> bool" where
  "py_isspace c = (c \<in> set [CHR 0x09, CHR 0x0A, CHR 0x0B, CHR 0x0C, CHR 0x0D,
                            CHR 0x1C, CHR 0x1D, CHR 0x1E, CHR 0x1F, CHR 0x20,
                            CHR 0x85, CHR 0xA0])"

text \<open>\<open>s.strip()\<close>: whitespace removed at both ends.\<close>

definition py_strip :: "string \<Rightarrow> string" where
  "py_strip s = rev (dropWhile py_isspace (rev (dropWhile py_isspace s)))"

text \<open>
  \<open>s.split()\<close> with no separator: the maximal runs of characters that are not
  whitespace, in order. \<open>cur\<close> is the token being read.
\<close>

fun split_ws :: "string \<Rightarrow> string \<Rightarrow> string list" where
  "split_ws cur [] = (if cur = [] then [] else [cur])"
| "split_ws cur (c # cs) =
     (if py_isspace c
      then (if cur = [] then split_ws [] cs else cur # split_ws [] cs)
      else split_ws (cur @ [c]) cs)"

definition py_split :: "string \<Rightarrow> string list" where
  "py_split s = split_ws [] s"

text \<open>\<open>sep.join(xs)\<close>.\<close>

fun py_join :: "string \<Rightarrow> string list \<Rightarrow> string" where
  "py_join sep [] = []"
| "py_join sep [x] = x"
| "py_join sep (x # y # ys) = x @ sep @ py_join sep (y # ys)"

text \<open>Decimal numerals: \<open>str(n)\<close> for an integer, and zero padding as \<open>%02d\<close> does.\<close>

definition digit_char :: "nat \<Rightarrow> char" where
  "digit_char d = ''0123456789'' ! (d mod 10)"

fun show_nat :: "nat \<Rightarrow> string" where
  "show_nat n = (if n < 10 then [digit_char n] else show_nat (n div 10) @ [digit_char (n mod 10)])"

declare show_nat.simps [simp del]

definition show_int :: "int \<Rightarrow> string" where
  "show_int i = (if i < 0 then CHR ''-'' # show_nat (nat (- i)) else show_nat (nat i))"

definition zero_pad :: "nat \<Rightarrow> nat \<Rightarrow> string" where
  "zero_pad width n = replicate (width - length (show_nat n)) CHR ''0'' @ show_nat n"

subsection \<open>The identifier pattern\<close>

text \<open>
  \<open>STUDENT_ID_PATTERN = re.compile(r"^[A-Za-z]{2}\d{6}$")\<close>. \<open>match_class p n s\<close>
  consumes exactly \<open>n\<close> characters of class \<open>p\<close> from the front of \<open>s\<close> and returns
  the rest. \<open>$\<close> matches at the end of the string and also just before a final
  newline.
\<close>

definition is_ascii_letter :: "char \<Rightarrow> bool" where
  "is_ascii_letter c =
     (let n = (of_char c :: nat) in (65 \<le> n \<and> n \<le> 90) \<or> (97 \<le> n \<and> n \<le> 122))"

definition is_digit :: "char \<Rightarrow> bool" where
  "is_digit c = (let n = (of_char c :: nat) in 48 \<le> n \<and> n \<le> 57)"

fun match_class :: "(char \<Rightarrow> bool) \<Rightarrow> nat \<Rightarrow> string \<Rightarrow> string option" where
  "match_class p 0 s = Some s"
| "match_class p (Suc n) [] = None"
| "match_class p (Suc n) (c # cs) = (if p c then match_class p n cs else None)"

definition STUDENT_ID_PATTERN_match :: "string \<Rightarrow> bool" where
  "STUDENT_ID_PATTERN_match s =
     (case match_class is_ascii_letter 2 s of
        None \<Rightarrow> False
      | Some r \<Rightarrow>
          (case match_class is_digit 6 r of
             None \<Rightarrow> False
           | Some r' \<Rightarrow> r' = [] \<or> r' = [CHR 0x0A]))"

section \<open>Cells, Python values and the runtime\<close>

text \<open>
  A cell of a frame that \<open>pd.read_excel\<close> produced: an empty cell is the float NaN
  (\<open>CNaN\<close>), the others hold text, an integer, a float that is not NaN, a boolean or a
  \<open>datetime\<close>. The float type is a parameter \<open>'f\<close>.
\<close>

record datetime =
  year :: nat
  month :: nat
  day :: nat
  hour :: nat
  minute :: nat
  second :: nat
  microsecond :: nat

datatype 'f cell =
    CNaN
  | CStr string
  | CInt int
  | CFloat 'f
  | CBool bool
  | CDateTime datetime

text \<open>
  What \<open>row.get(label)\<close> returns: \<open>None\<close> when no column has the label, the cell when
  one has, and a \<open>Series\<close> of all the cells when several columns share the label.
\<close>

datatype 'f pyobj =
    PyNone
  | Scalar "'f cell"
  | Series "'f cell list"

text \<open>
  The operations of the Python runtime on floats, and the text of a \<open>Series\<close>, are
  parameters of the model: every theorem holds for all of them. \<open>float_of_str\<close> is
  \<open>float(s)\<close> (\<open>None\<close> for \<open>ValueError\<close>), \<open>float_of_int\<close> is \<open>float(i)\<close> (\<open>None\<close>
  for \<open>OverflowError\<close>), \<open>float_times x k\<close> is \<open>x * k\<close> for an integer \<open>k\<close>,
  \<open>float_round x n\<close> is \<open>round(x, n)\<close>, \<open>float_str\<close> is \<open>str(x)\<close> and
  \<open>float_bool\<close> is the truth value of a float.
\<close>

record 'f runtime =
  float_of_str :: "string \<Rightarrow> 'f option"
  float_of_int :: "int \<Rightarrow> 'f option"
  float_times :: "'f \<Rightarrow> int \<Rightarrow> 'f"
  float_round :: "'f \<Rightarrow> int \<Rightarrow> 'f"
  float_str :: "'f \<Rightarrow> string"
  float_bool :: "'f \<Rightarrow> bool"
  series_str :: "'f cell list \<Rightarrow> string"

datatype error =
    InsufficientRows
  | MissingColumns "string list"
  | ValueError
  | TypeError
  | OverflowError
  | IndexError

text \<open>\<open>str(datetime)\<close>: ISO format with a space between date and time.\<close>

definition datetime_str :: "datetime \<Rightarrow> string" where
  "datetime_str d =
     zero_pad 4 (year d) @ ''-'' @ zero_pad 2 (month d) @ ''-'' @ zero_pad 2 (day d) @ '' '' @
     zero_pad 2 (hour d) @ '':'' @ zero_pad 2 (minute d) @ '':'' @ zero_pad 2 (second d) @
     (if microsecond d = 0 then [] else ''.'' @ zero_pad 6 (microsecond d))"

text \<open>\<open>strftime("%m/%d/%Y")\<close>.\<close>

definition strftime_mdY :: "datetime \<Rightarrow> string" where
  "strftime_mdY d = zero_pad 2 (month d) @ ''/'' @ zero_pad 2 (day d) @ ''/'' @ zero_pad 4 (year d)"

fun cell_str :: "'f runtime \<Rightarrow> 'f cell \<Rightarrow> string" where
  "cell_str rt CNaN = ''nan''"
| "cell_str rt (CStr s) = s"
| "cell_str rt (CInt i) = show_int i"
| "cell_str rt (CFloat x) = float_str rt x"
| "cell_str rt (CBool b) = (if b then ''True'' else ''False'')"
| "cell_str rt (CDateTime d) = datetime_str d"

fun py_str :: "'f runtime \<Rightarrow> 'f pyobj \<Rightarrow> string" where
  "py_str rt PyNone = ''None''"
| "py_str rt (Scalar c) = cell_str rt c"
| "py_str rt (Series cs) = series_str rt cs"

text \<open>The truth value of a cell: NaN is a non-zero float, hence true.\<close>

fun cell_bool :: "'f runtime \<Rightarrow> 'f cell \<Rightarrow> bool" where
  "cell_bool rt CNaN = True"
| "cell_bool rt (CStr s) = (s \<noteq> [])"
| "cell_bool rt (CInt i) = (i \<noteq> 0)"
| "cell_bool rt (CFloat x) = float_bool rt x"
| "cell_bool rt (CBool b) = b"
| "cell_bool rt (CDateTime d) = True"

text \<open>\<open>bool(x)\<close>; the truth value of a \<open>Series\<close> is ambiguous and raises \<open>ValueError\<close>.\<close>

fun py_bool :: "'f runtime \<Rightarrow> 'f pyobj \<Rightarrow> error + bool" where
  "py_bool rt PyNone = Inr False"
| "py_bool rt (Scalar c) = Inr (cell_bool rt c)"
| "py_bool rt (Series cs) = Inl ValueError"

text \<open>\<open>x or ""\<close>.\<close>

definition py_or_empty :: "'f runtime \<Rightarrow> 'f pyobj \<Rightarrow> error + 'f pyobj" where
  "py_or_empty rt x =
     (case py_bool rt x of
        Inl e \<Rightarrow> Inl e
      | Inr b \<Rightarrow> Inr (if b then x else Scalar (CStr [])))"

definition isna :: "'f cell \<Rightarrow> bool" where
  "isna c = (case c of CNaN \<Rightarrow> True | _ \<Rightarrow> False)"

text \<open>
  \<open>if pd.notna(x):\<close>. On a \<open>Series\<close>, \<open>pd.notna\<close> returns a \<open>Series\<close>, whose truth
  value raises \<open>ValueError\<close>.
\<close>

fun if_notna :: "'f pyobj \<Rightarrow> error + bool" where
  "if_notna PyNone = Inr False"
| "if_notna (Scalar c) = Inr (\<not> isna c)"
| "if_notna (Series cs) = Inl ValueError"

text \<open>\<open>float(x)\<close>.\<close>

fun py_float :: "'f runtime \<Rightarrow> 'f pyobj \<Rightarrow> error + 'f" where
  "py_float rt PyNone = Inl TypeError"
| "py_float rt (Series cs) = Inl TypeError"
| "py_float rt (Scalar CNaN) =
     (case float_of_str rt ''nan'' of None \<Rightarrow> Inl ValueError | Some x \<Rightarrow> Inr x)"
| "py_float rt (Scalar (CStr s)) =
     (case float_of_str rt s of None \<Rightarrow> Inl ValueError | Some x \<Rightarrow> Inr x)"
| "py_float rt (Scalar (CInt i)) =
     (case float_of_int rt i of None \<Rightarrow> Inl OverflowError | Some x \<Rightarrow> Inr x)"
| "py_float rt (Scalar (CFloat x)) = Inr x"
| "py_float rt (Scalar (CBool b)) =
     (case float_of_int rt (if b then 1 else 0) of None \<Rightarrow> Inl OverflowError | Some x \<Rightarrow> Inr x)"
| "py_float rt (Scalar (CDateTime d)) = Inl TypeError"

section \<open>The field extractor\<close>

text \<open>\<open>dedupe_tokens\<close>: the loop over \<open>tokens\<close> with its two variables \<open>seen\<close> and \<open>ordered\<close>.\<close>

fun dedupe_loop :: "string list \<Rightarrow> string set \<Rightarrow> string list \<Rightarrow> string list" where
  "dedupe_loop [] seen ordered = ordered"
| "dedupe_loop (token # tokens) seen ordered =
     (if token \<notin> seen
      then dedupe_loop tokens (insert token seen) (ordered @ [token])
      else dedupe_loop tokens seen ordered)"

definition dedupe_tokens :: "string list \<Rightarrow> string list" where
  "dedupe_tokens tokens = dedupe_loop tokens {} []"

text \<open>
  The loop of \<open>extract_student_fields\<close> over \<open>enumerate(tokens)\<close>: the third argument is
  what is left to inspect, \<open>index\<close> the position of its head in \<open>tokens\<close>. Running out of
  tokens returns the initial pair of empty strings.
\<close>

fun scan_tokens :: "string list \<Rightarrow> nat \<Rightarrow> string list \<Rightarrow> string \<times> string" where
  "scan_tokens tokens index [] = ([], [])"
| "scan_tokens tokens index (token # rest) =
     (if STUDENT_ID_PATTERN_match token then
        (let student_id = token;
             left_tokens = take index tokens;
             right_tokens = drop (index + 1) tokens;
             candidate =
               (if length right_tokens > length left_tokens then right_tokens
                else if length right_tokens = length left_tokens then left_tokens
                else left_tokens);
             candidate = dedupe_tokens candidate;
             student_name = py_strip (py_join '' '' candidate)
         in (student_id, student_name))
      else scan_tokens tokens (Suc index) rest)"

definition extract_student_fields :: "'f runtime \<Rightarrow> 'f pyobj \<Rightarrow> string \<times> string" where
  "extract_student_fields rt activity =
     (let tokens = map py_strip (filter (\<lambda>token. py_strip token \<noteq> []) (py_split (py_str rt activity)))
      in scan_tokens tokens 0 tokens)"

section \<open>The source loader\<close>

definition EXPECTED_SOURCE_COLUMNS :: "string list" where
  "EXPECTED_SOURCE_COLUMNS =
     [''ActivityDescription'', ''TherapistName'', ''Date'', ''PlacementDesc'',
      ''RateName'', ''EntryQuantity'', ''ChargeRate'', ''TotalCharge'']"

text \<open>
  A frame: its column labels and its rows, each row holding one cell per column. The
  labels are cells too, since they are read from a row of the sheet.
\<close>

record 'f dataframe =
  columns :: "'f cell list"
  rows :: "'f cell list list"

text \<open>
  \<open>df[keys]\<close> on one row: for each key in turn, the cells of every column that carries
  the key as its label. A label carried by several columns selects all of them.
\<close>

definition getitem_columns :: "'f cell list \<Rightarrow> string list \<Rightarrow> 'a list \<Rightarrow> 'a list" where
  "getitem_columns headers keys row =
     concat (map (\<lambda>key. map snd (filter (\<lambda>(label, v). label = CStr key) (zip headers row))) keys)"

text \<open>
  \<open>load_source_dataframe\<close>, from the frame \<open>raw\<close> that \<open>pd.read_excel(path, header=None)\<close>
  returned. The two \<open>ValueError\<close>s it raises are told apart by their messages:
  \<open>InsufficientRows\<close> and \<open>MissingColumns missing\<close>.
\<close>

definition load_source_dataframe :: "'f cell list list \<Rightarrow> error + 'f dataframe" where
  "load_source_dataframe raw =
     (if length raw < 3 then Inl InsufficientRows
      else
        (let headers = raw ! 1;
             df_source = filter (\<lambda>row. \<not> list_all isna row) (drop 2 raw);
             missing = filter (\<lambda>col. CStr col \<notin> set headers) EXPECTED_SOURCE_COLUMNS
         in if missing \<noteq> [] then Inl (MissingColumns missing)
            else Inr \<lparr>columns = getitem_columns headers EXPECTED_SOURCE_COLUMNS headers,
                      rows = map (getitem_columns headers EXPECTED_SOURCE_COLUMNS) df_source\<rparr>))"

section \<open>The record transformer\<close>

text \<open>A value of the target frame: text, or the float of the minutes column.\<close>

datatype 'f val = VStr string | VFloat 'f

text \<open>The dictionary \<open>record\<close>, its keys in the order of \<open>TARGET_COLUMNS\<close>.\<close>

record 'f target_record =
  Therapist_Name :: string
  Date_of_Service :: string
  PA_Cyber_Student_ID :: string
  Student_Name :: string
  Service :: string
  Minutes_on_IEP :: "'f val"

text \<open>\<open>row.get(label)\<close> on a row of a frame with the given column labels.\<close>

definition row_get :: "'f cell list \<Rightarrow> 'f cell list \<Rightarrow> string \<Rightarrow> 'f pyobj" where
  "row_get cols row label =
     (case map snd (filter (\<lambda>(l, v). l = CStr label) (zip cols row)) of
        [] \<Rightarrow> PyNone
      | [v] \<Rightarrow> Scalar v
      | vs \<Rightarrow> Series vs)"

text \<open>\<open>str(v or "").strip()\<close>, as used for the therapist name and the service.\<close>

definition clean_text :: "'f runtime \<Rightarrow> 'f pyobj \<Rightarrow> error + string" where
  "clean_text rt v =
     (case py_or_empty rt v of
        Inl e \<Rightarrow> Inl e
      | Inr w \<Rightarrow> Inr (py_strip (py_str rt w)))"

text \<open>The computation of \<open>date_str\<close> from \<open>date_value\<close>.\<close>

definition date_of_service :: "'f runtime \<Rightarrow> 'f pyobj \<Rightarrow> error + string" where
  "date_of_service rt date_value =
     (case if_notna date_value of
        Inl e \<Rightarrow> Inl e
      | Inr present \<Rightarrow>
          Inr (if present
               then (case date_value of
                       Scalar (CDateTime d) \<Rightarrow> strftime_mdY d
                     | _ \<Rightarrow> py_strip (py_str rt date_value))
               else []))"

text \<open>The computation of \<open>minutes_value\<close> from \<open>entry_quantity\<close>.\<close>

definition minutes_on_iep :: "'f runtime \<Rightarrow> 'f pyobj \<Rightarrow> error + 'f val" where
  "minutes_on_iep rt entry_quantity =
     (case if_notna entry_quantity of
        Inl e \<Rightarrow> Inl e
      | Inr present \<Rightarrow>
          (if present
           then (case py_float rt entry_quantity of
                   Inl e \<Rightarrow> Inl e
                 | Inr x \<Rightarrow> Inr (VFloat (float_round rt (float_times rt x 60) 2)))
           else Inr (VStr [])))"

text \<open>The body of the loop of \<open>build_target_dataframe\<close>, for a row that is not skipped.\<close>

definition build_record :: "'f runtime \<Rightarrow> 'f cell list \<Rightarrow> 'f cell list \<Rightarrow> error + 'f target_record" where
  "build_record rt cols row =
     (let (student_id, student_name) = extract_student_fields rt (row_get cols row ''ActivityDescription'')
      in case clean_text rt (row_get cols row ''TherapistName'') of
           Inl e \<Rightarrow> Inl e
         | Inr therapist_name \<Rightarrow>
        (case date_of_service rt (row_get cols row ''Date'') of
           Inl e \<Rightarrow> Inl e
         | Inr date_str \<Rightarrow>
        (case clean_text rt (row_get cols row ''PlacementDesc'') of
           Inl e \<Rightarrow> Inl e
         | Inr service_value \<Rightarrow>
        (case minutes_on_iep rt (row_get cols row ''EntryQuantity'') of
           Inl e \<Rightarrow> Inl e
         | Inr minutes_value \<Rightarrow>
             Inr \<lparr>Therapist_Name = therapist_name,
                  Date_of_Service = date_str,
                  PA_Cyber_Student_ID = student_id,
                  Student_Name = student_name,
                  Service = service_value,
                  Minutes_on_IEP = minutes_value\<rparr>))))"

text \<open>
  The loop over \<open>df_source.iterrows()\<close>: a row that is NaN in every cell is skipped, any
  other row appends its record to \<open>records\<close>, and an exception ends the loop.
\<close>

fun build_rows ::
  "'f runtime \<Rightarrow> 'f cell list \<Rightarrow> 'f cell list list \<Rightarrow> 'f target_record list \<Rightarrow> error + 'f target_record list"
where
  "build_rows rt cols [] records = Inr records"
| "build_rows rt cols (row # rest) records =
     (if list_all isna row then build_rows rt cols rest records
      else (case build_record rt cols row of
              Inl e \<Rightarrow> Inl e
            | Inr record \<Rightarrow> build_rows rt cols rest (records @ [record])))"

definition build_target_dataframe :: "'f runtime \<Rightarrow> 'f dataframe \<Rightarrow> error + 'f target_record list" where
  "build_target_dataframe rt df_source = build_rows rt (columns df_source) (rows df_source) []"

section \<open>The template writer\<close>

text \<open>
  The active sheet of the copied template: a cell for every coordinate such as \<open>A7\<close>,
  holding a value (\<open>None\<close> when empty) and the \<open>fill_type\<close> of its pattern fill
  (\<open>None\<close> for no fill).
\<close>

record 'f sheet_cell =
  cell_value :: "'f val option"
  fill_type :: "string option"

type_synonym 'f worksheet = "string \<Rightarrow> 'f sheet_cell"

definition start_row :: nat where
  "start_row = 7"

definition column_letters :: "string list" where
  "column_letters = [''A'', ''B'', ''C'', ''D'', ''E'', ''F'']"

text \<open>\<open>row.tolist()\<close> on a row of the target frame, whose columns are \<open>TARGET_COLUMNS\<close>.\<close>

definition tolist :: "'f target_record \<Rightarrow> 'f val list" where
  "tolist r =
     [VStr (Therapist_Name r), VStr (Date_of_Service r), VStr (PA_Cyber_Student_ID r),
      VStr (Student_Name r), VStr (Service r), Minutes_on_IEP r]"

text \<open>The inner loop over \<open>enumerate(values)\<close>; indexing \<open>column_letters\<close> out of range raises.\<close>

fun write_cells :: "'f worksheet \<Rightarrow> nat \<Rightarrow> nat \<Rightarrow> 'f val list \<Rightarrow> error + 'f worksheet" where
  "write_cells worksheet row_index col_idx [] = Inr worksheet"
| "write_cells worksheet row_index col_idx (v # values) =
     (if col_idx < length column_letters
      then write_cells
             (worksheet ((column_letters ! col_idx) @ show_nat row_index :=
                \<lparr>cell_value = Some v, fill_type = None\<rparr>))
             row_index (Suc col_idx) values
      else Inl IndexError)"

text \<open>The outer loop over \<open>enumerate(df_target.iterrows(), start=start_row)\<close>.\<close>

fun write_rows :: "'f worksheet \<Rightarrow> nat \<Rightarrow> 'f target_record list \<Rightarrow> error + 'f worksheet" where
  "write_rows worksheet row_index [] = Inr worksheet"
| "write_rows worksheet row_index (r # rest) =
     (case write_cells worksheet row_index 0 (tolist r) of
        Inl e \<Rightarrow> Inl e
      | Inr worksheet' \<Rightarrow> write_rows worksheet' (Suc row_index) rest)"

definition write_to_template :: "'f target_record list \<Rightarrow> 'f worksheet \<Rightarrow> error + 'f worksheet" where
  "write_to_template df_target worksheet = write_rows worksheet start_row df_target"

section \<open>Specification notions\<close>

text \<open>A token holds no whitespace.\<close>

definition no_space :: "string \<Rightarrow> bool" where
  "no_space t = (\<forall>c \<in> set t. \<not> py_isspace c)"

text \<open>
  Duplicates removed, first occurrences kept in their order: the head stays and its
  later copies go.
\<close>

function first_occurrences :: "'a list \<Rightarrow> 'a list" where
  "first_occurrences [] = []"
| "first_occurrences (x # xs) = x # first_occurrences (removeAll x xs)"
  by pat_completeness auto
termination
  by (relation "measure length") (auto simp: less_Suc_eq_le)

text \<open>The side with strictly more tokens, the left one when both have as many.\<close>

definition longer_side :: "'a list \<Rightarrow> 'a list \<Rightarrow> 'a list" where
  "longer_side left right = (if length left < length right then right else left)"

section \<open>A runtime with exact arithmetic\<close>

text \<open>
  One runtime, on which the model is evaluated at concrete inputs: floats are rational
  numbers, \<open>x * k\<close> is exact, \<open>round\<close> rounds the exact value half to even, and
  \<open>float\<close> reads plain decimal literals such as \<open>12\<close>, \<open>1.5\<close> or \<open>.25\<close>.
\<close>

definition round_half_even :: "rat \<Rightarrow> int" where
  "round_half_even x =
     (let f = \<lfloor>x\<rfloor>; r = x - of_int f
      in if r < 1 / 2 then f else if 1 / 2 < r then f + 1 else if even f then f else f + 1)"

definition exact_round :: "rat \<Rightarrow> int \<Rightarrow> rat" where
  "exact_round x n =
     (if 0 \<le> n then of_int (round_half_even (x * 10 ^ nat n)) / 10 ^ nat n
      else of_int (round_half_even (x / 10 ^ nat (- n))) * 10 ^ nat (- n))"

fun digits_value :: "nat \<Rightarrow> string \<Rightarrow> nat" where
  "digits_value acc [] = acc"
| "digits_value acc (c # cs) = digits_value (10 * acc + (of_char c - 48)) cs"

definition parse_decimal :: "string \<Rightarrow> rat option" where
  "parse_decimal s =
     (let ip = takeWhile is_digit s; rest = dropWhile is_digit s
      in case rest of
           [] \<Rightarrow> (if ip = [] then None else Some (of_nat (digits_value 0 ip)))
         | c # fp \<Rightarrow>
             (if c = CHR ''.'' \<and> list_all is_digit fp \<and> (ip \<noteq> [] \<or> fp \<noteq> [])
              then Some (of_nat (digits_value 0 ip) + of_nat (digits_value 0 fp) / 10 ^ length fp)
              else None))"

fun fraction_digits :: "nat \<Rightarrow> rat \<Rightarrow> string" where
  "fraction_digits 0 r = []"
| "fraction_digits (Suc n) r =
     (let d = \<lfloor>r * 10\<rfloor>; r' = r * 10 - of_int d
      in digit_char (nat d) # (if r' = 0 then [] else fraction_digits n r'))"

definition decimal_str :: "rat \<Rightarrow> string" where
  "decimal_str x =
     (let a = \<bar>x\<bar>; f = \<lfloor>a\<rfloor>
      in (if x < 0 then ''-'' else []) @ show_int f @ ''.'' @ fraction_digits 17 (a - of_int f))"

definition exact_runtime :: "rat runtime" where
  "exact_runtime =
     \<lparr>float_of_str = parse_decimal,
      float_of_int = (\<lambda>i. Some (of_int i)),
      float_times = (\<lambda>x k. x * of_int k),
      float_round = exact_round,
      float_str = decimal_str,
      float_bool = (\<lambda>x. x \<noteq> 0),
      series_str = (\<lambda>cs. [])\<rparr>"

section \<open>Specification notions for frames\<close>

text \<open>The position of the first column labelled \<open>key\<close>, and how many columns carry the label.\<close>

definition label_index :: "'f cell list \<Rightarrow> string \<Rightarrow> nat" where
  "label_index headers key = length (takeWhile (\<lambda>l. l \<noteq> CStr key) headers)"

definition occurrences :: "'f cell list \<Rightarrow> string \<Rightarrow> nat" where
  "occurrences headers key = length (filter (\<lambda>l. l = CStr key) headers)"

section \<open>Sample tables\<close>

text \<open>A header row with the eight required labels in their canonical order.\<close>

definition full_header :: "rat cell list" where
  "full_header = map CStr EXPECTED_SOURCE_COLUMNS"

text \<open>A sheet whose header row carries the label \<open>Date\<close> twice.\<close>

definition duplicate_date_table :: "rat cell list list" where
  "duplicate_date_table =
     [[CStr ''Report'', CNaN, CNaN, CNaN, CNaN, CNaN, CNaN, CNaN, CNaN],
      [CStr ''Date'', CStr ''ActivityDescription'', CStr ''TherapistName'', CStr ''PlacementDesc'',
       CStr ''RateName'', CStr ''EntryQuantity'', CStr ''ChargeRate'', CStr ''TotalCharge'', CStr ''Date''],
      [CStr ''03/05/2024'', CStr ''AB123456 Jane Doe'', CStr ''Ann'', CStr ''Speech'',
       CStr ''Std'', CInt 1, CInt 50, CInt 50, CStr ''03/06/2024'']]"

text \<open>A row holds a value in at least one column that carries a required label.\<close>

definition has_required_value :: "'f cell list \<Rightarrow> 'f cell list \<Rightarrow> bool" where
  "has_required_value headers row =
     (\<exists>(l, v) \<in> set (zip headers row). l \<in> CStr ` set EXPECTED_SOURCE_COLUMNS \<and> \<not> isna v)"

text \<open>The text \<open>mm/dd/yyyy\<close> of a month, a day and a year, digit by digit.\<close>

definition mm_dd_yyyy :: "nat \<Rightarrow> nat \<Rightarrow> nat \<Rightarrow> string" where
  "mm_dd_yyyy m d y =
     [digit_char (m div 10), digit_char (m mod 10), CHR ''/'',
      digit_char (d div 10), digit_char (d mod 10), CHR ''/'',
      digit_char (y div 1000), digit_char (y div 100 mod 10), digit_char (y div 10 mod 10),
      digit_char (y mod 10)]"

text \<open>A normalized frame of one row, and the same row with an empty therapist name.\<close>

definition sample_row :: "rat cell list" where
  "sample_row =
     [CStr ''Speech AB123456 Jane Doe Jane'', CStr '' Ann Lee '',
      CDateTime \<lparr>year = 2024, month = 3, day = 5, hour = 0, minute = 0, second = 0, microsecond = 0\<rparr>,
      CStr ''Speech Therapy'', CStr ''Std'', CFloat (3 / 2), CStr ''n/a'', CNaN]"

definition blank_row :: "rat cell list" where
  "blank_row =
     [CStr ''AB123456 Jane Doe'', CNaN, CStr '' 2024-03-05 '', CNaN, CNaN, CNaN, CNaN, CNaN]"

text \<open>A row whose hours are text that is no number.\<close>

definition text_hours_row :: "rat cell list" where
  "text_hours_row =
     [CStr ''AB123456 Jane Doe'', CStr ''Ann'', CNaN, CStr ''Speech'', CStr ''Std'',
      CStr ''two hours'', CInt 50, CInt 100]"

text \<open>
  A sheet with a ninth column \<open>Notes\<close>. Of its four data rows one is empty, and one
  holds a note and nothing under the required labels.
\<close>

definition sample_table :: "rat cell list list" where
  "sample_table =
     [CStr ''Report'' # replicate 8 CNaN,
      full_header @ [CStr ''Notes''],
      sample_row @ [CNaN],
      replicate 9 CNaN,
      replicate 8 CNaN @ [CStr ''late''],
      blank_row @ [CStr ''x'']]"

definition notes_only_table :: "rat cell list list" where
  "notes_only_table =
     [CStr ''Report'' # replicate 8 CNaN,
      full_header @ [CStr ''Notes''],
      replicate 8 CNaN @ [CStr ''late'']]"

text \<open>A cell after the writer has filled it: it holds the value and has no fill.\<close>

definition written :: "'f val \<Rightarrow> 'f sheet_cell" where
  "written v = \<lparr>cell_value = Some v, fill_type = None\<rparr>"

text \<open>A template whose cells are all empty and filled solid.\<close>

definition flagged_template :: "rat worksheet" where
  "flagged_template = (\<lambda>c. \<lparr>cell_value = None, fill_type = Some ''solid''\<rparr>)"

text \<open>The frame that the loader returns for \<open>duplicate_date_table\<close>.\<close>

definition duplicate_date_frame :: "rat dataframe" where
  "duplicate_date_frame =
     \<lparr>columns = [CStr ''ActivityDescription'', CStr ''TherapistName'', CStr ''Date'', CStr ''Date'',
                 CStr ''PlacementDesc'', CStr ''RateName'', CStr ''EntryQuantity'',
                 CStr ''ChargeRate'', CStr ''TotalCharge''],
      rows = [[CStr ''AB123456 Jane Doe'', CStr ''Ann'', CStr ''03/05/2024'', CStr ''03/06/2024'',
               CStr ''Speech'', CStr ''Std'', CInt 1, CInt 50, CInt 50]]\<rparr>"

section \<open>The field extractor: claim C1\<close>


lemma dedupe_loop_eq:
  "dedupe_loop tokens seen ordered = ordered @ first_occurrences (filter (\<lambda>t. t \<notin> seen) tokens)"
proof (induction tokens arbitrary: seen ordered)
  case Nil
  then show ?case by simp
next
  case (Cons t ts)
  have "removeAll t (filter (\<lambda>u. u \<notin> seen) ts) = filter (\<lambda>u. u \<notin> insert t seen) ts"
    by (induction ts) auto
  with Cons show ?case by simp
qed

lemma dedupe_tokens_eq: "dedupe_tokens tokens = first_occurrences tokens"
  by (simp add: dedupe_tokens_def dedupe_loop_eq)

lemma set_first_occurrences: "set (first_occurrences xs) = set xs"
  by (induction xs rule: first_occurrences.induct) auto

lemma distinct_first_occurrences: "distinct (first_occurrences xs)"
  by (induction xs rule: first_occurrences.induct) (auto simp: set_first_occurrences)

lemma split_ws_tokens:
  "no_space cur \<Longrightarrow> t \<in> set (split_ws cur s) \<Longrightarrow> t \<noteq> [] \<and> no_space t"
proof (induction cur s rule: split_ws.induct)
  case (1 cur)
  then show ?case by (simp split: if_splits)
next
  case (2 cur c cs)
  show ?case
  proof (cases "py_isspace c")
    case True
    have e: "no_space []" by (simp add: no_space_def)
    show ?thesis
    proof (cases "cur = []")
      case c: True
      with True 2 e show ?thesis by simp
    next
      case c: False
      with True 2 e show ?thesis by auto
    qed
  next
    case False
    with 2 have "no_space (cur @ [c])" by (simp add: no_space_def)
    with False 2 show ?thesis by simp
  qed
qed

lemma py_split_tokens: "t \<in> set (py_split s) \<Longrightarrow> t \<noteq> [] \<and> no_space t"
  unfolding py_split_def by (rule split_ws_tokens) (simp_all add: no_space_def)

lemma py_strip_no_space: "no_space t \<Longrightarrow> py_strip t = t"
proof -
  assume a: "no_space t"
  have "dropWhile py_isspace t = t"
    using a by (cases t) (auto simp: no_space_def)
  moreover have "dropWhile py_isspace (rev t) = rev t"
    using a by (cases "rev t") (auto simp: no_space_def dest: arg_cong[where f=set])
  ultimately show ?thesis by (simp add: py_strip_def)
qed

lemma py_strip_ends:
  "t \<noteq> [] \<Longrightarrow> \<not> py_isspace (hd t) \<Longrightarrow> \<not> py_isspace (last t) \<Longrightarrow> py_strip t = t"
proof -
  assume a: "t \<noteq> []" "\<not> py_isspace (hd t)" "\<not> py_isspace (last t)"
  have "dropWhile py_isspace t = t"
    using a by (cases t) auto
  moreover have "dropWhile py_isspace (rev t) = rev t"
    using a by (cases "rev t") (auto simp: last_rev hd_rev)
  ultimately show ?thesis by (simp add: py_strip_def)
qed



lemma match_class_eq:
  "match_class p n s = (if n \<le> length s \<and> list_all p (take n s) then Some (drop n s) else None)"
  by (induction p n s rule: match_class.induct) auto

lemma drop_singleton_iff: "drop n s = [c] \<longleftrightarrow> length s = Suc n \<and> s ! n = c"
proof
  assume a: "drop n s = [c]"
  then have "length (drop n s) = 1" by simp
  then have l: "length s = Suc n" by simp
  then have "s ! n = hd (drop n s)" by (simp add: hd_drop_conv_nth)
  with a l show "length s = Suc n \<and> s ! n = c" by simp
next
  assume a: "length s = Suc n \<and> s ! n = c"
  then have "n < length s" by simp
  then have "drop n s = s ! n # drop (Suc n) s" by (rule Cons_nth_drop_Suc [symmetric])
  with a show "drop n s = [c]" by simp
qed

lemma pattern_match_iff:
  "STUDENT_ID_PATTERN_match s \<longleftrightarrow>
     list_all is_ascii_letter (take 2 s) \<and> list_all is_digit (take 6 (drop 2 s)) \<and>
     (length s = 8 \<or> (length s = 9 \<and> s ! 8 = CHR 0x0A))"
proof -
  have m: "STUDENT_ID_PATTERN_match s \<longleftrightarrow>
      2 \<le> length s \<and> list_all is_ascii_letter (take 2 s) \<and>
      6 \<le> length (drop 2 s) \<and> list_all is_digit (take 6 (drop 2 s)) \<and>
      (drop 6 (drop 2 s) = [] \<or> drop 6 (drop 2 s) = [CHR 0x0A])"
    by (simp add: STUDENT_ID_PATTERN_match_def match_class_eq) blast
  have d: "drop 6 (drop 2 s) = drop 8 s" by simp
  have e: "drop 8 s = [] \<longleftrightarrow> length s \<le> 8" by simp
  have n: "drop 8 s = [CHR 0x0A] \<longleftrightarrow> length s = 9 \<and> s ! 8 = CHR 0x0A"
    using drop_singleton_iff [of 8 s "CHR 0x0A"] by simp
  have l: "2 \<le> length s \<and> 6 \<le> length (drop 2 s) \<longleftrightarrow> 8 \<le> length s"
    by (simp only: length_drop) arith
  show ?thesis
    unfolding m d e n using l by (simp only: length_drop) arith
qed

lemma pattern_match_token:
  "no_space t \<Longrightarrow>
   STUDENT_ID_PATTERN_match t \<longleftrightarrow>
     length t = 8 \<and> list_all is_ascii_letter (take 2 t) \<and> list_all is_digit (drop 2 t)"
proof -
  assume a: "no_space t"
  have "\<not> (length t = 9 \<and> t ! 8 = CHR 0x0A)"
  proof
    assume b: "length t = 9 \<and> t ! 8 = CHR 0x0A"
    then have "8 < length t" by simp
    then have "t ! 8 \<in> set t" by (rule nth_mem)
    with a b show False by (auto simp: no_space_def py_isspace_def)
  qed
  then show ?thesis
    by (auto simp: pattern_match_iff)
qed

lemma py_join_ends:
  "ts \<noteq> [] \<Longrightarrow> \<forall>t \<in> set ts. t \<noteq> [] \<Longrightarrow>
   py_join sep ts \<noteq> [] \<and> hd (py_join sep ts) = hd (hd ts) \<and> last (py_join sep ts) = last (last ts)"
  by (induction sep ts rule: py_join.induct) auto

lemma py_strip_join:
  assumes "\<forall>t \<in> set ts. t \<noteq> [] \<and> no_space t"
  shows "py_strip (py_join sep ts) = py_join sep ts"
proof (cases "ts = []")
  case True
  then show ?thesis by (simp add: py_strip_def)
next
  case False
  then have e: "py_join sep ts \<noteq> [] \<and> hd (py_join sep ts) = hd (hd ts) \<and> last (py_join sep ts) = last (last ts)"
    using assms by (intro py_join_ends) auto
  have h: "hd ts \<in> set ts" "last ts \<in> set ts" using False by auto
  then have "hd (hd ts) \<in> set (hd ts)" "last (last ts) \<in> set (last ts)"
    using assms by auto
  then have "\<not> py_isspace (hd (hd ts))" "\<not> py_isspace (last (last ts))"
    using assms h by (auto simp: no_space_def)
  with e show ?thesis by (intro py_strip_ends) auto
qed

lemma scan_tokens_eq:
  "scan_tokens (pre @ rest) (length pre) rest =
     (case dropWhile (\<lambda>t. \<not> STUDENT_ID_PATTERN_match t) rest of
        [] \<Rightarrow> ([], [])
      | student_id # right \<Rightarrow>
          (student_id,
           py_strip (py_join '' '' (dedupe_tokens
             (longer_side (pre @ takeWhile (\<lambda>t. \<not> STUDENT_ID_PATTERN_match t) rest) right)))))"
proof (induction rest arbitrary: pre)
  case Nil
  then show ?case by simp
next
  case (Cons t rest)
  show ?case
  proof (cases "STUDENT_ID_PATTERN_match t")
    case True
    then show ?thesis by (simp add: longer_side_def Let_def)
  next
    case False
    have "scan_tokens (pre @ t # rest) (length pre) (t # rest) = scan_tokens ((pre @ [t]) @ rest) (length (pre @ [t])) rest"
      using False by simp
    also have "\<dots> = (case dropWhile (\<lambda>t. \<not> STUDENT_ID_PATTERN_match t) rest of
        [] \<Rightarrow> ([], [])
      | student_id # right \<Rightarrow>
          (student_id,
           py_strip (py_join '' '' (dedupe_tokens
             (longer_side ((pre @ [t]) @ takeWhile (\<lambda>t. \<not> STUDENT_ID_PATTERN_match t) rest) right)))))"
      by (rule Cons.IH)
    finally show ?thesis using False by (simp cong: list.case_cong)
  qed
qed


lemma concat_split_ws: "concat (split_ws cur s) = cur @ filter (\<lambda>c. \<not> py_isspace c) s"
  by (induction cur s rule: split_ws.induct) auto

lemma tokens_py_split:
  "map py_strip (filter (\<lambda>token. py_strip token \<noteq> []) (py_split s)) = py_split s"
proof -
  have a: "\<forall>t \<in> set (py_split s). py_strip t = t \<and> t \<noteq> []"
    using py_split_tokens py_strip_no_space by blast
  then have "filter (\<lambda>token. py_strip token \<noteq> []) (py_split s) = py_split s"
    by (intro filter_True) auto
  moreover have "map py_strip (py_split s) = py_split s"
    using a by (intro map_idI) auto
  ultimately show ?thesis by simp
qed

lemma extract_student_fields_str:
  "extract_student_fields rt (Scalar (CStr s)) =
     (case dropWhile (\<lambda>t. \<not> STUDENT_ID_PATTERN_match t) (py_split s) of
        [] \<Rightarrow> ([], [])
      | student_id # right \<Rightarrow>
          (student_id,
           py_join '' '' (first_occurrences
             (longer_side (takeWhile (\<lambda>t. \<not> STUDENT_ID_PATTERN_match t) (py_split s)) right))))"
proof -
  let ?M = "\<lambda>t. \<not> STUDENT_ID_PATTERN_match t"
  let ?toks = "py_split s"
  have e: "extract_student_fields rt (Scalar (CStr s)) = scan_tokens ([] @ ?toks) (length ([] :: string list)) ?toks"
    by (simp add: extract_student_fields_def tokens_py_split Let_def)
  show ?thesis
  proof (cases "dropWhile ?M ?toks")
    case Nil
    then show ?thesis unfolding e scan_tokens_eq Nil by simp
  next
    case (Cons tid right)
    let ?side = "longer_side (takeWhile ?M ?toks) right"
    have "set right \<subseteq> set ?toks"
      using Cons set_dropWhileD[of _ ?M ?toks] by (metis list.set_intros(2) subsetI)
    moreover have "set (takeWhile ?M ?toks) \<subseteq> set ?toks"
      using set_takeWhileD by fastforce
    ultimately have "set ?side \<subseteq> set ?toks"
      by (simp add: longer_side_def)
    then have "\<forall>t \<in> set (dedupe_tokens ?side). t \<noteq> [] \<and> no_space t"
      using py_split_tokens by (auto simp: dedupe_tokens_eq set_first_occurrences)
    then have "py_strip (py_join '' '' (dedupe_tokens ?side)) = py_join '' '' (dedupe_tokens ?side)"
      by (rule py_strip_join)
    then show ?thesis unfolding e scan_tokens_eq Cons by (simp add: dedupe_tokens_eq)
  qed
qed

text \<open>
  Claim C1. For a description that is a string \<open>s\<close>, the tokens are those of
  \<open>py_split s\<close>: none is empty, none holds whitespace, and together they are the
  characters of \<open>s\<close> that are not whitespace. A token matches the identifier pattern
  exactly when it is two ASCII letters followed by six digits. The extractor returns the
  first matching token as the identifier, and as the name the side with strictly more
  tokens (the left one on a tie), duplicates removed with first occurrences kept in
  order, joined by single spaces; with no matching token it returns two empty strings.
\<close>

theorem C1_extract_student_fields:
  "(\<forall>t \<in> set (py_split s).
      t \<noteq> [] \<and> no_space t \<and>
      (STUDENT_ID_PATTERN_match t \<longleftrightarrow>
         length t = 8 \<and> list_all is_ascii_letter (take 2 t) \<and> list_all is_digit (drop 2 t))) \<and>
   concat (py_split s) = filter (\<lambda>c. \<not> py_isspace c) s \<and>
   extract_student_fields rt (Scalar (CStr s)) =
     (case dropWhile (\<lambda>t. \<not> STUDENT_ID_PATTERN_match t) (py_split s) of
        [] \<Rightarrow> ([], [])
      | student_id # right \<Rightarrow>
          (student_id,
           py_join '' '' (first_occurrences
             (longer_side (takeWhile (\<lambda>t. \<not> STUDENT_ID_PATTERN_match t) (py_split s)) right))))"
proof (intro conjI ballI)
  fix t assume "t \<in> set (py_split s)"
  then have t: "t \<noteq> [] \<and> no_space t" by (rule py_split_tokens)
  then show "t \<noteq> []" and "no_space t" by simp_all
  from t show "STUDENT_ID_PATTERN_match t \<longleftrightarrow>
         length t = 8 \<and> list_all is_ascii_letter (take 2 t) \<and> list_all is_digit (drop 2 t)"
    by (simp add: pattern_match_token)
next
  show "concat (py_split s) = filter (\<lambda>c. \<not> py_isspace c) s"
    by (simp add: py_split_def concat_split_ws)
next
  show "extract_student_fields rt (Scalar (CStr s)) =
     (case dropWhile (\<lambda>t. \<not> STUDENT_ID_PATTERN_match t) (py_split s) of
        [] \<Rightarrow> ([], [])
      | student_id # right \<Rightarrow>
          (student_id,
           py_join '' '' (first_occurrences
             (longer_side (takeWhile (\<lambda>t. \<not> STUDENT_ID_PATTERN_match t) (py_split s)) right))))"
    by (rule extract_student_fields_str)
qed

text \<open>The three cases of C1 on concrete descriptions.\<close>

theorem C1_extract_student_fields_witness:
  "extract_student_fields exact_runtime (Scalar (CStr ''Math Tutoring AB123456 Jane Doe'')) =
     (''AB123456'', ''Math Tutoring'') \<and>
   extract_student_fields exact_runtime (Scalar (CStr ''Jane AB123456 x Doe x Smith CD654321'')) =
     (''AB123456'', ''x Doe Smith CD654321'') \<and>
   extract_student_fields exact_runtime (Scalar (CStr ''Jane Doe A1234567'')) = ([], [])"
  using C1_extract_student_fields [of "''Math Tutoring AB123456 Jane Doe''" exact_runtime]
    C1_extract_student_fields [of "''Jane AB123456 x Doe x Smith CD654321''" exact_runtime]
    C1_extract_student_fields [of "''Jane Doe A1234567''" exact_runtime]
  by (simp add: py_split_def py_isspace_def STUDENT_ID_PATTERN_match_def is_ascii_letter_def
      is_digit_def longer_side_def eval_nat_numeral)

section \<open>The source loader: claims C3 and C7\<close>

lemma load_insufficient:
  "load_source_dataframe raw = Inl InsufficientRows \<longleftrightarrow> length raw < 3"
  by (simp add: load_source_dataframe_def Let_def)

lemma load_missing:
  "load_source_dataframe raw = Inl (MissingColumns ms) \<longleftrightarrow>
     3 \<le> length raw \<and> ms \<noteq> [] \<and>
     ms = filter (\<lambda>col. CStr col \<notin> set (raw ! 1)) EXPECTED_SOURCE_COLUMNS"
  by (auto simp: load_source_dataframe_def Let_def)

lemma load_error_cases:
  "load_source_dataframe raw = Inl e \<Longrightarrow>
     e = InsufficientRows \<or> (\<exists>ms. e = MissingColumns ms)"
  by (auto simp: load_source_dataframe_def Let_def split: if_splits)

lemma filter_absent_Nil:
  "filter (\<lambda>col. CStr col \<notin> set headers) keys = [] \<longleftrightarrow> (\<forall>col \<in> set keys. CStr col \<in> set headers)"
  by (simp add: filter_empty_conv)

lemma load_success:
  "(\<exists>df. load_source_dataframe raw = Inr df) \<longleftrightarrow>
     3 \<le> length raw \<and> (\<forall>col \<in> set EXPECTED_SOURCE_COLUMNS. CStr col \<in> set (raw ! 1))"
  by (auto simp: load_source_dataframe_def Let_def filter_empty_conv)

text \<open>
  Claim C3, amended. The loader fails with \<open>InsufficientRows\<close> exactly when the raw table
  has fewer than 3 rows. It fails with \<open>MissingColumns\<close> exactly when the table has at
  least 3 rows and a required label is absent from the header row (row index 1); the
  error then lists every absent label, in canonical order. It succeeds exactly when the
  table has at least 3 rows and no required label is absent, and it raises nothing else.
\<close>

theorem C3_load_errors:
  "(load_source_dataframe raw = Inl InsufficientRows \<longleftrightarrow> length raw < 3) \<and>
   ((\<exists>ms. load_source_dataframe raw = Inl (MissingColumns ms)) \<longleftrightarrow>
      3 \<le> length raw \<and> (\<exists>col \<in> set EXPECTED_SOURCE_COLUMNS. CStr col \<notin> set (raw ! 1))) \<and>
   (load_source_dataframe raw = Inl (MissingColumns ms) \<longrightarrow>
      ms = filter (\<lambda>col. CStr col \<notin> set (raw ! 1)) EXPECTED_SOURCE_COLUMNS) \<and>
   ((\<exists>df. load_source_dataframe raw = Inr df) \<longleftrightarrow>
      3 \<le> length raw \<and> (\<forall>col \<in> set EXPECTED_SOURCE_COLUMNS. CStr col \<in> set (raw ! 1))) \<and>
   (load_source_dataframe raw = Inl e \<longrightarrow> e = InsufficientRows \<or> (\<exists>ms. e = MissingColumns ms))"
proof (intro conjI)
  show "load_source_dataframe raw = Inl InsufficientRows \<longleftrightarrow> length raw < 3"
    by (rule load_insufficient)
  show "(\<exists>ms. load_source_dataframe raw = Inl (MissingColumns ms)) \<longleftrightarrow>
      3 \<le> length raw \<and> (\<exists>col \<in> set EXPECTED_SOURCE_COLUMNS. CStr col \<notin> set (raw ! 1))"
    unfolding load_missing by (simp add: filter_empty_conv)
  show "load_source_dataframe raw = Inl (MissingColumns ms) \<longrightarrow>
      ms = filter (\<lambda>col. CStr col \<notin> set (raw ! 1)) EXPECTED_SOURCE_COLUMNS"
    by (simp add: load_missing)
  show "(\<exists>df. load_source_dataframe raw = Inr df) \<longleftrightarrow>
      3 \<le> length raw \<and> (\<forall>col \<in> set EXPECTED_SOURCE_COLUMNS. CStr col \<in> set (raw ! 1))"
    by (rule load_success)
  show "load_source_dataframe raw = Inl e \<longrightarrow> e = InsufficientRows \<or> (\<exists>ms. e = MissingColumns ms)"
    using load_error_cases by blast
qed

text \<open>The three outcomes of C3 on concrete tables.\<close>

theorem C3_load_errors_witness:
  "load_source_dataframe [[CStr ''Report''], [CStr ''Date'', CStr ''TherapistName''], [CNaN, CStr ''Ann'' :: rat cell]] =
     Inl (MissingColumns [''ActivityDescription'', ''PlacementDesc'', ''RateName'', ''EntryQuantity'',
                          ''ChargeRate'', ''TotalCharge'']) \<and>
   load_source_dataframe [[CStr ''Report''], full_header] = Inl InsufficientRows \<and>
   (\<exists>df. load_source_dataframe [[CStr ''Report''], full_header, [CStr ''x'']] = Inr df)"
  using C3_load_errors [of "[[CStr ''Report''], [CStr ''Date'', CStr ''TherapistName''], [CNaN, CStr ''Ann'' :: rat cell]]"
      "[''ActivityDescription'', ''PlacementDesc'', ''RateName'', ''EntryQuantity'', ''ChargeRate'', ''TotalCharge'']"]
    C3_load_errors [of "[[CStr ''Report''], full_header]"]
    C3_load_errors [of "[[CStr ''Report''], full_header, [CStr ''x'']]"]
  by (simp add: full_header_def EXPECTED_SOURCE_COLUMNS_def load_source_dataframe_def)

text \<open>
  C3 as stated fails on a table of two rows whose header row lacks the label \<open>Date\<close>:
  the loader reports too few rows, not the missing column.
\<close>

theorem C3_counterexample:
  "load_source_dataframe [[CStr ''Report''], [CStr ''Notes'' :: rat cell]] = Inl InsufficientRows \<and>
   CStr ''Date'' \<notin> set ([[CStr ''Report''], [CStr ''Notes'' :: rat cell]] ! 1) \<and>
   ''Date'' \<in> set EXPECTED_SOURCE_COLUMNS"
  by (simp add: load_source_dataframe_def EXPECTED_SOURCE_COLUMNS_def)

lemma filter_zip_none:
  "filter p hs = [] \<Longrightarrow> filter (\<lambda>(l, v). p l) (zip hs rs) = []"
  by (induction hs arbitrary: rs) (auto split: if_splits simp: zip_Cons1 split: list.splits)

lemma select_unique:
  "occurrences headers key = 1 \<Longrightarrow> length row = length headers \<Longrightarrow>
   map snd (filter (\<lambda>(l, v). l = CStr key) (zip headers row)) = [row ! label_index headers key]"
proof (induction headers arbitrary: row)
  case Nil
  then show ?case by (simp add: occurrences_def)
next
  case (Cons h hs)
  then obtain r rs where row: "row = r # rs" by (cases row) auto
  show ?case
  proof (cases "h = CStr key")
    case True
    with Cons.prems have "filter (\<lambda>l. l = CStr key) hs = []"
      by (simp add: occurrences_def)
    then have "filter (\<lambda>(l, v). l = CStr key) (zip hs rs) = []"
      by (rule filter_zip_none)
    with True row show ?thesis by (simp add: label_index_def)
  next
    case False
    with Cons.prems row have "occurrences hs key = 1" "length rs = length hs"
      by (simp_all add: occurrences_def)
    then have "map snd (filter (\<lambda>(l, v). l = CStr key) (zip hs rs)) = [rs ! label_index hs key]"
      by (rule Cons.IH)
    with False row show ?thesis by (simp add: label_index_def)
  qed
qed

lemma getitem_columns_unique:
  assumes "\<forall>key \<in> set keys. occurrences headers key = 1" and "length row = length headers"
  shows "getitem_columns headers keys row = map (\<lambda>key. row ! label_index headers key) keys"
  using assms(1)
proof (induction keys)
  case Nil
  then show ?case by (simp add: getitem_columns_def)
next
  case (Cons k ks)
  then have "getitem_columns headers ks row = map (\<lambda>key. row ! label_index headers key) ks"
    by simp
  moreover have "map snd (filter (\<lambda>(l, v). l = CStr k) (zip headers row)) = [row ! label_index headers k]"
    using Cons.prems assms(2) by (intro select_unique) simp_all
  ultimately show ?case by (simp add: getitem_columns_def)
qed

lemma label_index_nth:
  "CStr key \<in> set headers \<Longrightarrow> headers ! label_index headers key = CStr key"
  by (induction headers) (auto simp: label_index_def)

lemma occurrences_pos:
  "CStr key \<in> set headers \<Longrightarrow> 1 \<le> occurrences headers key"
  by (induction headers) (auto simp: occurrences_def)

text \<open>
  Claim C7, amended. For a rectangular table whose header row carries no required label
  more than once, a successful load returns the eight required columns in canonical
  order, and as rows the data rows (index 2 onward) that are not empty in every cell, in
  their order, each restricted to the cells under the required labels.
\<close>

theorem C7_load_result:
  assumes "load_source_dataframe raw = Inr df"
    and "\<forall>row \<in> set raw. length row = length (raw ! 1)"
    and "\<forall>key \<in> set EXPECTED_SOURCE_COLUMNS. occurrences (raw ! 1) key \<le> 1"
  shows "columns df = map CStr EXPECTED_SOURCE_COLUMNS \<and>
         rows df = map (\<lambda>row. map (\<lambda>key. row ! label_index (raw ! 1) key) EXPECTED_SOURCE_COLUMNS)
                     (filter (\<lambda>row. \<not> list_all isna row) (drop 2 raw))"
proof -
  let ?h = "raw ! 1"
  let ?E = "EXPECTED_SOURCE_COLUMNS"
  from assms(1) have len: "3 \<le> length raw" and present: "\<forall>col \<in> set ?E. CStr col \<in> set ?h"
    using load_success [of raw] by blast+
  have df: "df = \<lparr>columns = getitem_columns ?h ?E ?h,
                   rows = map (getitem_columns ?h ?E) (filter (\<lambda>row. \<not> list_all isna row) (drop 2 raw))\<rparr>"
    using assms(1) by (simp add: load_source_dataframe_def Let_def split: if_splits)
  have once: "\<forall>key \<in> set ?E. occurrences ?h key = 1"
    using assms(3) present occurrences_pos by (metis le_antisym)
  have cols: "getitem_columns ?h ?E ?h = map CStr ?E"
  proof -
    have "getitem_columns ?h ?E ?h = map (\<lambda>key. ?h ! label_index ?h key) ?E"
      using once by (intro getitem_columns_unique) simp_all
    also have "\<dots> = map CStr ?E"
      using present by (intro map_cong) (simp_all add: label_index_nth)
    finally show ?thesis .
  qed
  have rws: "map (getitem_columns ?h ?E) (filter (\<lambda>row. \<not> list_all isna row) (drop 2 raw)) =
             map (\<lambda>row. map (\<lambda>key. row ! label_index ?h key) ?E) (filter (\<lambda>row. \<not> list_all isna row) (drop 2 raw))"
  proof (intro map_cong refl)
    fix row assume "row \<in> set (filter (\<lambda>row. \<not> list_all isna row) (drop 2 raw))"
    then have "row \<in> set raw" by (auto dest: in_set_dropD)
    then have "length row = length ?h" using assms(2) by simp
    then show "getitem_columns ?h ?E row = map (\<lambda>key. row ! label_index ?h key) ?E"
      using once by (intro getitem_columns_unique) simp_all
  qed
  show ?thesis unfolding df using cols rws by simp
qed

text \<open>C7 on a sheet with a ninth column and an empty data row.\<close>

theorem C7_load_result_witness:
  "load_source_dataframe
     [[CStr ''Report'', CNaN, CNaN, CNaN, CNaN, CNaN, CNaN, CNaN, CNaN],
      [CStr ''Date'', CStr ''ActivityDescription'', CStr ''TherapistName'', CStr ''PlacementDesc'',
       CStr ''RateName'', CStr ''EntryQuantity'', CStr ''ChargeRate'', CStr ''TotalCharge'', CStr ''Notes''],
      [CNaN, CNaN, CNaN, CNaN, CNaN, CNaN, CNaN, CNaN, CNaN],
      [CStr ''03/05/2024'', CStr ''AB123456 Jane Doe'', CStr ''Ann'', CStr ''Speech'',
       CStr ''Std'', CInt 1, CInt 50, CInt 50, CStr ''late'' :: rat cell]] =
   Inr \<lparr>columns = map CStr EXPECTED_SOURCE_COLUMNS,
        rows = [[CStr ''AB123456 Jane Doe'', CStr ''Ann'', CStr ''03/05/2024'', CStr ''Speech'',
                 CStr ''Std'', CInt 1, CInt 50, CInt 50]]\<rparr>"
proof -
  let ?raw = "[[CStr ''Report'', CNaN, CNaN, CNaN, CNaN, CNaN, CNaN, CNaN, CNaN],
      [CStr ''Date'', CStr ''ActivityDescription'', CStr ''TherapistName'', CStr ''PlacementDesc'',
       CStr ''RateName'', CStr ''EntryQuantity'', CStr ''ChargeRate'', CStr ''TotalCharge'', CStr ''Notes''],
      [CNaN, CNaN, CNaN, CNaN, CNaN, CNaN, CNaN, CNaN, CNaN],
      [CStr ''03/05/2024'', CStr ''AB123456 Jane Doe'', CStr ''Ann'', CStr ''Speech'',
       CStr ''Std'', CInt 1, CInt 50, CInt 50, CStr ''late'' :: rat cell]]"
  have "\<exists>df. load_source_dataframe ?raw = Inr df"
    unfolding load_success by (simp add: EXPECTED_SOURCE_COLUMNS_def)
  then obtain df where df: "load_source_dataframe ?raw = Inr df" ..
  have r: "\<forall>row \<in> set ?raw. length row = length (?raw ! 1)" by simp
  have o: "\<forall>key \<in> set EXPECTED_SOURCE_COLUMNS. occurrences (?raw ! 1) key \<le> 1"
    by (simp add: EXPECTED_SOURCE_COLUMNS_def occurrences_def)
  have "columns df = map CStr EXPECTED_SOURCE_COLUMNS \<and>
         rows df = map (\<lambda>row. map (\<lambda>key. row ! label_index (?raw ! 1) key) EXPECTED_SOURCE_COLUMNS)
                     (filter (\<lambda>row. \<not> list_all isna row) (drop 2 ?raw))"
    using df r o by (rule C7_load_result)
  then have "columns df = map CStr EXPECTED_SOURCE_COLUMNS \<and>
         rows df = [[CStr ''AB123456 Jane Doe'', CStr ''Ann'', CStr ''03/05/2024'', CStr ''Speech'',
                 CStr ''Std'', CInt 1, CInt 50, CInt 50]]"
    by (simp add: EXPECTED_SOURCE_COLUMNS_def label_index_def isna_def)
  then have "df = \<lparr>columns = map CStr EXPECTED_SOURCE_COLUMNS,
        rows = [[CStr ''AB123456 Jane Doe'', CStr ''Ann'', CStr ''03/05/2024'', CStr ''Speech'',
                 CStr ''Std'', CInt 1, CInt 50, CInt 50]]\<rparr>"
    by (cases df) simp
  with df show ?thesis by simp
qed

text \<open>
  C7 as stated fails when the header row repeats a required label: both columns
  labelled \<open>Date\<close> are kept, so the result has nine columns.
\<close>

theorem C7_counterexample:
  "load_source_dataframe duplicate_date_table =
     Inr \<lparr>columns = [CStr ''ActivityDescription'', CStr ''TherapistName'', CStr ''Date'', CStr ''Date'',
                     CStr ''PlacementDesc'', CStr ''RateName'', CStr ''EntryQuantity'',
                     CStr ''ChargeRate'', CStr ''TotalCharge''],
          rows = [[CStr ''AB123456 Jane Doe'', CStr ''Ann'', CStr ''03/05/2024'', CStr ''03/06/2024'',
                   CStr ''Speech'', CStr ''Std'', CInt 1, CInt 50, CInt 50]]\<rparr>"
  by (simp add: load_source_dataframe_def duplicate_date_table_def EXPECTED_SOURCE_COLUMNS_def
      getitem_columns_def isna_def)

section \<open>The record transformer: claims C2, C4, C5, C8 and C10\<close>

lemma build_record_Inr:
  "build_record rt cols row = Inr r \<longleftrightarrow>
     (\<exists>tn ds sv mv.
        clean_text rt (row_get cols row ''TherapistName'') = Inr tn \<and>
        date_of_service rt (row_get cols row ''Date'') = Inr ds \<and>
        clean_text rt (row_get cols row ''PlacementDesc'') = Inr sv \<and>
        minutes_on_iep rt (row_get cols row ''EntryQuantity'') = Inr mv \<and>
        r = \<lparr>Therapist_Name = tn, Date_of_Service = ds,
             PA_Cyber_Student_ID = fst (extract_student_fields rt (row_get cols row ''ActivityDescription'')),
             Student_Name = snd (extract_student_fields rt (row_get cols row ''ActivityDescription'')),
             Service = sv, Minutes_on_IEP = mv\<rparr>)"
  unfolding build_record_def
  by (cases "extract_student_fields rt (row_get cols row ''ActivityDescription'')")
     (auto split: sum.splits)

lemma clean_text_Scalar:
  "clean_text rt (Scalar c) = Inr (if cell_bool rt c then py_strip (cell_str rt c) else [])"
  by (simp add: clean_text_def py_or_empty_def py_strip_def)

lemma date_of_service_Scalar:
  "date_of_service rt (Scalar v) =
     Inr (if isna v then [] else case v of CDateTime d \<Rightarrow> strftime_mdY d | _ \<Rightarrow> py_strip (cell_str rt v))"
  by (cases v) (simp_all add: date_of_service_def isna_def)

lemma minutes_on_iep_Scalar:
  "minutes_on_iep rt (Scalar q) =
     (if isna q then Inr (VStr [])
      else case py_float rt (Scalar q) of
             Inl e \<Rightarrow> Inl e
           | Inr x \<Rightarrow> Inr (VFloat (float_round rt (float_times rt x 60) 2)))"
  by (simp add: minutes_on_iep_def)

lemma build_rows_Inr:
  "build_rows rt cols rws acc = Inr recs \<Longrightarrow>
   \<exists>new. recs = acc @ new \<and>
         list_all2 (\<lambda>row r. build_record rt cols row = Inr r)
           (filter (\<lambda>row. \<not> list_all isna row) rws) new"
proof (induction rws arbitrary: acc)
  case Nil
  then show ?case by simp
next
  case (Cons row rest)
  show ?case
  proof (cases "list_all isna row")
    case True
    with Cons.prems have "build_rows rt cols rest acc = Inr recs" by simp
    from Cons.IH [OF this] True show ?thesis by simp
  next
    case False
    with Cons.prems obtain r where r: "build_record rt cols row = Inr r"
      and rest: "build_rows rt cols rest (acc @ [r]) = Inr recs"
      by (auto split: sum.splits)
    from Cons.IH [OF rest] obtain new where
      "recs = (acc @ [r]) @ new"
      "list_all2 (\<lambda>row r. build_record rt cols row = Inr r) (filter (\<lambda>row. \<not> list_all isna row) rest) new"
      by blast
    with r False show ?thesis by (intro exI [of _ "r # new"]) simp
  qed
qed

lemma build_rows_Inl:
  "row \<in> set rws \<Longrightarrow> \<not> list_all isna row \<Longrightarrow> build_record rt cols row = Inl e \<Longrightarrow>
   \<exists>e'. build_rows rt cols rws acc = Inl e'"
proof (induction rws arbitrary: acc)
  case Nil
  then show ?case by simp
next
  case (Cons r rest)
  show ?case
  proof (cases "r = row")
    case True
    with Cons.prems show ?thesis by simp
  next
    case False
    with Cons.prems have "\<And>acc. \<exists>e'. build_rows rt cols rest acc = Inl e'"
      using Cons.IH by simp
    then show ?thesis by (simp split: sum.splits)
  qed
qed

lemma build_rows_total:
  "\<forall>row \<in> set rws. \<not> list_all isna row \<longrightarrow> (\<exists>r. build_record rt cols row = Inr r) \<Longrightarrow>
   \<exists>recs. build_rows rt cols rws acc = Inr recs"
proof (induction rws arbitrary: acc)
  case Nil
  then show ?case by simp
next
  case (Cons r rest)
  then have rest: "\<And>acc. \<exists>recs. build_rows rt cols rest acc = Inr recs" by simp
  show ?case
  proof (cases "list_all isna r")
    case True
    with rest show ?thesis by simp
  next
    case False
    with Cons.prems obtain x where "build_record rt cols r = Inr x" by auto
    with False rest show ?thesis by simp
  qed
qed

lemma digit_char_0: "digit_char 0 = CHR ''0''"
  by (simp add: digit_char_def)

lemma digit_char_mod: "digit_char (n mod 10) = digit_char n"
  by (simp add: digit_char_def)

lemma show_nat_1: "n < 10 \<Longrightarrow> show_nat n = [digit_char n]"
  by (simp add: show_nat.simps)

lemma show_nat_2:
  "10 \<le> n \<Longrightarrow> n < 100 \<Longrightarrow> show_nat n = [digit_char (n div 10), digit_char (n mod 10)]"
proof -
  assume a: "10 \<le> n" "n < 100"
  then have "n div 10 < 10" by simp
  then have "show_nat (n div 10) = [digit_char (n div 10)]" by (rule show_nat_1)
  with a show ?thesis by (subst show_nat.simps) simp
qed

lemma show_nat_3:
  "100 \<le> n \<Longrightarrow> n < 1000 \<Longrightarrow>
   show_nat n = [digit_char (n div 100), digit_char (n div 10 mod 10), digit_char (n mod 10)]"
proof -
  assume a: "100 \<le> n" "n < 1000"
  then have "10 \<le> n div 10" "n div 10 < 100" by simp_all
  then have "show_nat (n div 10) = [digit_char (n div 10 div 10), digit_char (n div 10 mod 10)]"
    by (rule show_nat_2)
  moreover have "n div 10 div 10 = n div 100" by (simp add: div_mult2_eq [symmetric])
  ultimately show ?thesis using a by (subst show_nat.simps) simp
qed

lemma show_nat_4:
  "1000 \<le> n \<Longrightarrow> n < 10000 \<Longrightarrow>
   show_nat n = [digit_char (n div 1000), digit_char (n div 100 mod 10),
                 digit_char (n div 10 mod 10), digit_char (n mod 10)]"
proof -
  assume a: "1000 \<le> n" "n < 10000"
  then have "100 \<le> n div 10" "n div 10 < 1000" by simp_all
  then have "show_nat (n div 10) =
      [digit_char (n div 10 div 100), digit_char (n div 10 div 10 mod 10), digit_char (n div 10 mod 10)]"
    by (rule show_nat_3)
  moreover have "n div 10 div 100 = n div 1000" "n div 10 div 10 = n div 100"
    by (simp_all add: div_mult2_eq [symmetric])
  ultimately show ?thesis using a by (subst show_nat.simps) simp
qed

lemma zero_pad_2:
  "n < 100 \<Longrightarrow> zero_pad 2 n = [digit_char (n div 10), digit_char (n mod 10)]"
proof (cases "n < 10")
  case True
  then show ?thesis
    by (simp add: zero_pad_def show_nat_1 digit_char_0 digit_char_mod)
next
  case False
  assume "n < 100"
  with False show ?thesis by (simp add: zero_pad_def show_nat_2)
qed

lemma zero_pad_4:
  assumes "n < 10000"
  shows "zero_pad 4 n = [digit_char (n div 1000), digit_char (n div 100 mod 10),
                         digit_char (n div 10 mod 10), digit_char (n mod 10)]"
proof -
  consider "n < 10" | "10 \<le> n" "n < 100" | "100 \<le> n" "n < 1000" | "1000 \<le> n" "n < 10000"
    using assms by linarith
  then show ?thesis
  proof cases
    case 1
    then show ?thesis
      by (simp add: zero_pad_def show_nat_1 digit_char_0 digit_char_mod numeral_2_eq_2 numeral_3_eq_3)
  next
    case 2
    then show ?thesis
      by (simp add: zero_pad_def show_nat_2 digit_char_0 numeral_2_eq_2 numeral_3_eq_3)
  next
    case 3
    then show ?thesis
      by (simp add: zero_pad_def show_nat_3 digit_char_0 numeral_2_eq_2 numeral_3_eq_3)
  next
    case 4
    then show ?thesis
      by (simp add: zero_pad_def show_nat_4)
  qed
qed

lemma strftime_mdY_format:
  "month d < 100 \<Longrightarrow> day d < 100 \<Longrightarrow> year d < 10000 \<Longrightarrow>
   strftime_mdY d = mm_dd_yyyy (month d) (day d) (year d)"
  by (simp add: strftime_mdY_def mm_dd_yyyy_def zero_pad_2 zero_pad_4)

lemma row_get_normalized:
  "row_get (map CStr EXPECTED_SOURCE_COLUMNS) [a, t, d, p, rn, q, cr, tc] ''ActivityDescription'' = Scalar a"
  "row_get (map CStr EXPECTED_SOURCE_COLUMNS) [a, t, d, p, rn, q, cr, tc] ''TherapistName'' = Scalar t"
  "row_get (map CStr EXPECTED_SOURCE_COLUMNS) [a, t, d, p, rn, q, cr, tc] ''Date'' = Scalar d"
  "row_get (map CStr EXPECTED_SOURCE_COLUMNS) [a, t, d, p, rn, q, cr, tc] ''PlacementDesc'' = Scalar p"
  "row_get (map CStr EXPECTED_SOURCE_COLUMNS) [a, t, d, p, rn, q, cr, tc] ''EntryQuantity'' = Scalar q"
  by (simp_all add: row_get_def EXPECTED_SOURCE_COLUMNS_def)

lemma sample_record:
  "build_record exact_runtime (map CStr EXPECTED_SOURCE_COLUMNS) sample_row =
     Inr \<lparr>Therapist_Name = ''Ann Lee'', Date_of_Service = ''03/05/2024'',
          PA_Cyber_Student_ID = ''AB123456'', Student_Name = ''Jane Doe'',
          Service = ''Speech Therapy'', Minutes_on_IEP = VFloat 90\<rparr>"
proof -
  have e: "extract_student_fields exact_runtime (Scalar (CStr ''Speech AB123456 Jane Doe Jane'')) =
      (''AB123456'', ''Jane Doe'')"
    by (simp add: extract_student_fields_str py_split_def py_isspace_def STUDENT_ID_PATTERN_match_def
        is_ascii_letter_def is_digit_def longer_side_def numeral_2_eq_2 eval_nat_numeral)
  have r: "float_round exact_runtime (float_times exact_runtime (3 / 2) 60) 2 = 90"
    by (simp add: exact_runtime_def exact_round_def round_half_even_def)
  have d: "strftime_mdY \<lparr>year = 2024, month = 3, day = 5, hour = 0, minute = 0, second = 0, microsecond = 0\<rparr> =
      ''03/05/2024''"
    by (simp add: strftime_mdY_format mm_dd_yyyy_def digit_char_def)
  show ?thesis
    unfolding build_record_Inr sample_row_def row_get_normalized
    by (simp add: e r d clean_text_Scalar date_of_service_Scalar minutes_on_iep_Scalar isna_def
        py_strip_def py_isspace_def)
qed

lemma blank_record:
  "build_record exact_runtime (map CStr EXPECTED_SOURCE_COLUMNS) blank_row =
     Inr \<lparr>Therapist_Name = ''nan'', Date_of_Service = ''2024-03-05'',
          PA_Cyber_Student_ID = ''AB123456'', Student_Name = ''Jane Doe'',
          Service = ''nan'', Minutes_on_IEP = VStr []\<rparr>"
proof -
  have e: "extract_student_fields exact_runtime (Scalar (CStr ''AB123456 Jane Doe'')) =
      (''AB123456'', ''Jane Doe'')"
    by (simp add: extract_student_fields_str py_split_def py_isspace_def STUDENT_ID_PATTERN_match_def
        is_ascii_letter_def is_digit_def longer_side_def numeral_2_eq_2 eval_nat_numeral)
  show ?thesis
    unfolding build_record_Inr blank_row_def row_get_normalized
    by (simp add: e clean_text_Scalar date_of_service_Scalar minutes_on_iep_Scalar isna_def
        py_strip_def py_isspace_def)
qed



lemma build_record_normalized:
  "build_record rt (map CStr EXPECTED_SOURCE_COLUMNS) [a, t, d, p, rn, q, cr, tc] =
     (case minutes_on_iep rt (Scalar q) of
        Inl e \<Rightarrow> Inl e
      | Inr mv \<Rightarrow>
          Inr \<lparr>Therapist_Name = (if cell_bool rt t then py_strip (cell_str rt t) else []),
               Date_of_Service =
                 (if isna d then []
                  else case d of CDateTime x \<Rightarrow> strftime_mdY x | _ \<Rightarrow> py_strip (cell_str rt d)),
               PA_Cyber_Student_ID = fst (extract_student_fields rt (Scalar a)),
               Student_Name = snd (extract_student_fields rt (Scalar a)),
               Service = (if cell_bool rt p then py_strip (cell_str rt p) else []),
               Minutes_on_IEP = mv\<rparr>)"
proof (cases "minutes_on_iep rt (Scalar q)")
  case (Inl e)
  have "\<not> (\<exists>r. build_record rt (map CStr EXPECTED_SOURCE_COLUMNS) [a, t, d, p, rn, q, cr, tc] = Inr r)"
    unfolding build_record_Inr row_get_normalized using Inl by simp
  then obtain e' where e': "build_record rt (map CStr EXPECTED_SOURCE_COLUMNS) [a, t, d, p, rn, q, cr, tc] = Inl e'"
    by (cases "build_record rt (map CStr EXPECTED_SOURCE_COLUMNS) [a, t, d, p, rn, q, cr, tc]") auto
  then have "e' = e"
    using Inl unfolding build_record_def row_get_normalized
    by (simp add: clean_text_Scalar date_of_service_Scalar split: prod.splits)
  with e' Inl show ?thesis by simp
next
  case (Inr mv)
  have "build_record rt (map CStr EXPECTED_SOURCE_COLUMNS) [a, t, d, p, rn, q, cr, tc] =
          Inr \<lparr>Therapist_Name = (if cell_bool rt t then py_strip (cell_str rt t) else []),
               Date_of_Service =
                 (if isna d then []
                  else case d of CDateTime x \<Rightarrow> strftime_mdY x | _ \<Rightarrow> py_strip (cell_str rt d)),
               PA_Cyber_Student_ID = fst (extract_student_fields rt (Scalar a)),
               Student_Name = snd (extract_student_fields rt (Scalar a)),
               Service = (if cell_bool rt p then py_strip (cell_str rt p) else []),
               Minutes_on_IEP = mv\<rparr>"
    unfolding build_record_Inr row_get_normalized
    by (simp add: clean_text_Scalar date_of_service_Scalar Inr)
  then show ?thesis using Inr by simp
qed

lemma length_8:
  "length row = 8 \<Longrightarrow> row = [row ! 0, row ! 1, row ! 2, row ! 3, row ! 4, row ! 5, row ! 6, row ! 7]"
proof -
  assume "length row = 8"
  then have "length row = Suc (Suc (Suc (Suc (Suc (Suc (Suc (Suc 0)))))))" by simp
  then obtain a b c d e f g h where "row = [a, b, c, d, e, f, g, h]"
    by (auto simp: length_Suc_conv)
  then show ?thesis by simp
qed

lemma minutes_Inl_build_record_Inl:
  "minutes_on_iep rt (row_get cols row ''EntryQuantity'') = Inl e \<Longrightarrow>
   \<exists>e'. build_record rt cols row = Inl e'"
proof -
  assume a: "minutes_on_iep rt (row_get cols row ''EntryQuantity'') = Inl e"
  have "\<not> (\<exists>r. build_record rt cols row = Inr r)"
    unfolding build_record_Inr using a by simp
  then show ?thesis by (cases "build_record rt cols row") auto
qed

text \<open>
  Claim C5. For a row whose \<open>Date\<close> cell is \<open>v\<close> and whose record is produced, the date
  field is empty when \<open>v\<close> is null; it is \<open>strftime("%m/%d/%Y")\<close> of \<open>v\<close> when \<open>v\<close> is a
  \<open>datetime\<close>, which for a month and a day of at most two digits and a year of at most
  four is the text \<open>mm/dd/yyyy\<close>; and otherwise it is the trimmed text of \<open>v\<close>, so the
  trimmed string itself when \<open>v\<close> is a string.
\<close>

theorem C5_date_of_service:
  assumes "build_record rt cols row = Inr r"
    and "row_get cols row ''Date'' = Scalar v"
  shows "(isna v \<longrightarrow> Date_of_Service r = []) \<and>
         (\<forall>d. v = CDateTime d \<longrightarrow>
            Date_of_Service r = strftime_mdY d \<and>
            (month d < 100 \<and> day d < 100 \<and> year d < 10000 \<longrightarrow>
               Date_of_Service r = mm_dd_yyyy (month d) (day d) (year d))) \<and>
         (\<not> isna v \<and> (\<forall>d. v \<noteq> CDateTime d) \<longrightarrow> Date_of_Service r = py_strip (cell_str rt v)) \<and>
         (\<forall>s. v = CStr s \<longrightarrow> Date_of_Service r = py_strip s)"
proof -
  from assms have m: "date_of_service rt (Scalar v) = Inr (Date_of_Service r)"
    by (auto simp: build_record_Inr)
  have a: "isna v \<longrightarrow> Date_of_Service r = []"
    using m by (auto simp: date_of_service_Scalar)
  have b: "\<forall>d. v = CDateTime d \<longrightarrow> Date_of_Service r = strftime_mdY d"
    using m by (auto simp: date_of_service_Scalar isna_def)
  have c: "\<not> isna v \<and> (\<forall>d. v \<noteq> CDateTime d) \<longrightarrow> Date_of_Service r = py_strip (cell_str rt v)"
    using m by (cases v) (auto simp: date_of_service_Scalar)
  have d: "\<forall>s. v = CStr s \<longrightarrow> Date_of_Service r = py_strip s"
    using c by (auto simp: isna_def)
  from a b c d show ?thesis by (auto simp: strftime_mdY_format)
qed

text \<open>C5 at the date 2024-03-05, at a string with blanks around it, and at an empty cell.\<close>

theorem C5_date_of_service_witness:
  "(\<exists>r. build_record exact_runtime (map CStr EXPECTED_SOURCE_COLUMNS) sample_row = Inr r \<and>
        Date_of_Service r = ''03/05/2024'') \<and>
   (\<exists>r. build_record exact_runtime (map CStr EXPECTED_SOURCE_COLUMNS) blank_row = Inr r \<and>
        Date_of_Service r = ''2024-03-05'') \<and>
   (\<exists>r. build_record exact_runtime (map CStr EXPECTED_SOURCE_COLUMNS)
          [CStr ''x'', CStr ''Ann'', CNaN, CNaN, CNaN, CNaN, CNaN, CNaN] = Inr r \<and>
        Date_of_Service r = [])"
proof -
  let ?d = "\<lparr>year = 2024, month = 3, day = 5, hour = 0, minute = 0, second = 0, microsecond = 0\<rparr>"
  let ?row = "[CStr ''x'', CStr ''Ann'', CNaN, CNaN, CNaN, CNaN, CNaN, CNaN] :: rat cell list"
  have q1: "row_get (map CStr EXPECTED_SOURCE_COLUMNS) sample_row ''Date'' = Scalar (CDateTime ?d)"
    by (simp add: sample_row_def row_get_normalized)
  have q2: "row_get (map CStr EXPECTED_SOURCE_COLUMNS) blank_row ''Date'' = Scalar (CStr '' 2024-03-05 '')"
    by (simp add: blank_row_def row_get_normalized)
  have q3: "row_get (map CStr EXPECTED_SOURCE_COLUMNS) ?row ''Date'' = Scalar CNaN"
    by (simp add: row_get_normalized)
  obtain r3 where r3: "build_record exact_runtime (map CStr EXPECTED_SOURCE_COLUMNS) ?row = Inr r3"
    by (simp add: build_record_normalized minutes_on_iep_Scalar isna_def)
  have "Date_of_Service r3 = []"
    using C5_date_of_service [OF r3 q3] by (simp add: isna_def)
  moreover have "\<exists>r. build_record exact_runtime (map CStr EXPECTED_SOURCE_COLUMNS) sample_row = Inr r \<and>
        Date_of_Service r = ''03/05/2024''"
    using C5_date_of_service [OF sample_record q1] sample_record
    by (simp add: mm_dd_yyyy_def digit_char_def)
  moreover have "\<exists>r. build_record exact_runtime (map CStr EXPECTED_SOURCE_COLUMNS) blank_row = Inr r \<and>
        Date_of_Service r = ''2024-03-05''"
    using C5_date_of_service [OF blank_record q2] blank_record
    by (simp add: py_strip_def py_isspace_def)
  ultimately show ?thesis using r3 by blast
qed

text \<open>
  Claim C8, at the input where the code departs from it. An empty cell is the float NaN,
  which is true, so \<open>str(v or "").strip()\<close> is the text \<open>nan\<close> and not the empty
  string: the record of \<open>blank_row\<close> carries \<open>nan\<close> as therapist name and as service. A
  string cell gives its trimmed text, and the integer 0 gives the empty string.
\<close>

theorem C8_clean_text_nan:
  "clean_text rt (Scalar CNaN) = Inr ''nan'' \<and>
   clean_text rt (Scalar (CStr s)) = Inr (py_strip s) \<and>
   clean_text rt (Scalar (CInt 0)) = Inr [] \<and>
   build_record exact_runtime (map CStr EXPECTED_SOURCE_COLUMNS)
     [CStr ''AB123456 Jane Doe'', CNaN, CStr '' 2024-03-05 '', CNaN, CNaN, CNaN, CNaN, CNaN] =
     Inr \<lparr>Therapist_Name = ''nan'', Date_of_Service = ''2024-03-05'',
          PA_Cyber_Student_ID = ''AB123456'', Student_Name = ''Jane Doe'',
          Service = ''nan'', Minutes_on_IEP = VStr []\<rparr>"
proof -
  have "clean_text rt (Scalar CNaN) = Inr ''nan''"
    by (simp add: clean_text_Scalar py_strip_def py_isspace_def)
  moreover have "clean_text rt (Scalar (CStr s)) = Inr (py_strip s)"
    by (simp add: clean_text_Scalar py_strip_def)
  moreover have "clean_text rt (Scalar (CInt 0)) = Inr []"
    by (simp add: clean_text_Scalar)
  ultimately show ?thesis using blank_record by (simp add: blank_row_def)
qed

lemma length_filter_zip_le:
  "length (filter (\<lambda>(l, v). p l) (zip cols row)) \<le> length (filter p cols)"
proof (induction cols arbitrary: row)
  case Nil
  then show ?case by simp
next
  case (Cons c cols)
  show ?case
  proof (cases row)
    case Nil
    then show ?thesis by simp
  next
    case (Cons v vs)
    with Cons.IH [of vs] show ?thesis by simp
  qed
qed

lemma row_get_single:
  assumes "occurrences cols key \<le> 1"
  shows "row_get cols row key = PyNone \<or> (\<exists>v. row_get cols row key = Scalar v)"
proof -
  let ?m = "map snd (filter (\<lambda>(l, v). l = CStr key) (zip cols row))"
  have "length ?m \<le> length (filter (\<lambda>l. l = CStr key) cols)"
    using length_filter_zip_le [of "\<lambda>l. l = CStr key" cols row] by simp
  with assms have "length ?m \<le> 1" by (simp add: occurrences_def)
  then consider "?m = []" | v where "?m = [v]"
    by (cases ?m) (auto simp: length_Suc_conv)
  then show ?thesis
  proof cases
    case 1
    then show ?thesis by (simp add: row_get_def)
  next
    case (2 v)
    then show ?thesis by (simp add: row_get_def)
  qed
qed

lemma clean_text_PyNone: "clean_text rt PyNone = Inr []"
  by (simp add: clean_text_def py_or_empty_def py_strip_def)

lemma date_of_service_PyNone: "date_of_service rt PyNone = Inr []"
  by (simp add: date_of_service_def)

lemma minutes_on_iep_PyNone: "minutes_on_iep rt PyNone = Inr (VStr [])"
  by (simp add: minutes_on_iep_def)

lemma build_record_returns:
  assumes "occurrences cols ''TherapistName'' \<le> 1"
    and "occurrences cols ''Date'' \<le> 1"
    and "occurrences cols ''PlacementDesc'' \<le> 1"
    and "occurrences cols ''EntryQuantity'' \<le> 1"
    and "\<forall>q. row_get cols row ''EntryQuantity'' = Scalar q \<longrightarrow>
           isna q \<or> (\<exists>x. py_float rt (Scalar q) = Inr x)"
  shows "\<exists>r. build_record rt cols row = Inr r"
proof -
  have t: "\<exists>tn. clean_text rt (row_get cols row ''TherapistName'') = Inr tn"
    using row_get_single [OF assms(1), of row] by (auto simp: clean_text_PyNone clean_text_Scalar)
  have d: "\<exists>ds. date_of_service rt (row_get cols row ''Date'') = Inr ds"
    using row_get_single [OF assms(2), of row] by (auto simp: date_of_service_PyNone date_of_service_Scalar)
  have p: "\<exists>sv. clean_text rt (row_get cols row ''PlacementDesc'') = Inr sv"
    using row_get_single [OF assms(3), of row] by (auto simp: clean_text_PyNone clean_text_Scalar)
  have m: "\<exists>mv. minutes_on_iep rt (row_get cols row ''EntryQuantity'') = Inr mv"
  proof -
    from row_get_single [OF assms(4), of row] consider
      "row_get cols row ''EntryQuantity'' = PyNone" | q where "row_get cols row ''EntryQuantity'' = Scalar q"
      by blast
    then show ?thesis
    proof cases
      case 1
      then show ?thesis by (simp add: minutes_on_iep_PyNone)
    next
      case (2 q)
      with assms(5) have "isna q \<or> (\<exists>x. py_float rt (Scalar q) = Inr x)" by blast
      with 2 show ?thesis by (auto simp: minutes_on_iep_Scalar)
    qed
  qed
  from t d p m show ?thesis
    unfolding build_record_Inr by blast
qed

text \<open>
  Claim C10, amended. If a row of the frame that is not skipped has an \<open>EntryQuantity\<close>
  cell that is not null and that \<open>float\<close> rejects, the transformer raises and returns
  no records. On a frame in which none of the labels \<open>TherapistName\<close>, \<open>Date\<close>,
  \<open>PlacementDesc\<close> and \<open>EntryQuantity\<close> is carried by more than one column, and in which
  every \<open>EntryQuantity\<close> cell is null or accepted by \<open>float\<close>, the transformer returns
  records, whatever the other cells hold.
\<close>

theorem C10_entry_quantity:
  "(row \<in> set (rows df) \<and> \<not> list_all isna row \<and>
    row_get (columns df) row ''EntryQuantity'' = Scalar q \<and> \<not> isna q \<and>
    py_float rt (Scalar q) = Inl e \<longrightarrow>
      (\<exists>e'. build_target_dataframe rt df = Inl e')) \<and>
   ((\<forall>key \<in> set [''TherapistName'', ''Date'', ''PlacementDesc'', ''EntryQuantity''].
       occurrences (columns df) key \<le> 1) \<and>
    (\<forall>row \<in> set (rows df). \<forall>q.
       row_get (columns df) row ''EntryQuantity'' = Scalar q \<longrightarrow>
         isna q \<or> (\<exists>x. py_float rt (Scalar q) = Inr x)) \<longrightarrow>
      (\<exists>recs. build_target_dataframe rt df = Inr recs))"
proof (intro conjI impI)
  assume a: "row \<in> set (rows df) \<and> \<not> list_all isna row \<and>
    row_get (columns df) row ''EntryQuantity'' = Scalar q \<and> \<not> isna q \<and>
    py_float rt (Scalar q) = Inl e"
  then have "minutes_on_iep rt (row_get (columns df) row ''EntryQuantity'') = Inl e"
    by (simp add: minutes_on_iep_Scalar)
  then obtain e' where "build_record rt (columns df) row = Inl e'"
    using minutes_Inl_build_record_Inl by blast
  with a show "\<exists>e'. build_target_dataframe rt df = Inl e'"
    unfolding build_target_dataframe_def by (intro build_rows_Inl [of row]) simp_all
next
  assume b: "(\<forall>key \<in> set [''TherapistName'', ''Date'', ''PlacementDesc'', ''EntryQuantity''].
       occurrences (columns df) key \<le> 1) \<and>
    (\<forall>row \<in> set (rows df). \<forall>q.
       row_get (columns df) row ''EntryQuantity'' = Scalar q \<longrightarrow>
         isna q \<or> (\<exists>x. py_float rt (Scalar q) = Inr x))"
  then have o: "occurrences (columns df) ''TherapistName'' \<le> 1"
    "occurrences (columns df) ''Date'' \<le> 1"
    "occurrences (columns df) ''PlacementDesc'' \<le> 1"
    "occurrences (columns df) ''EntryQuantity'' \<le> 1"
    by simp_all
  have "\<exists>r. build_record rt (columns df) row = Inr r" if "row \<in> set (rows df)" for row
  proof -
    from b that have "\<forall>q. row_get (columns df) row ''EntryQuantity'' = Scalar q \<longrightarrow>
         isna q \<or> (\<exists>x. py_float rt (Scalar q) = Inr x)"
      by blast
    with o show ?thesis by (rule build_record_returns)
  qed
  then have "\<forall>row \<in> set (rows df). \<not> list_all isna row \<longrightarrow>
      (\<exists>r. build_record rt (columns df) row = Inr r)"
    by blast
  then show "\<exists>recs. build_target_dataframe rt df = Inr recs"
    unfolding build_target_dataframe_def by (rule build_rows_total)
qed

text \<open>
  C10 on a frame whose second row has the hours \<open>two hours\<close>, and on a frame whose rows
  have numeric or empty hours and text as charge rate.
\<close>

theorem C10_entry_quantity_witness:
  "(\<exists>e'. build_target_dataframe exact_runtime
            \<lparr>columns = map CStr EXPECTED_SOURCE_COLUMNS, rows = [sample_row, text_hours_row]\<rparr> = Inl e') \<and>
   (\<exists>recs. build_target_dataframe exact_runtime
            \<lparr>columns = map CStr EXPECTED_SOURCE_COLUMNS, rows = [sample_row, blank_row]\<rparr> = Inr recs)"
proof -
  let ?bad = "\<lparr>columns = map CStr EXPECTED_SOURCE_COLUMNS, rows = [sample_row, text_hours_row]\<rparr>"
  let ?good = "\<lparr>columns = map CStr EXPECTED_SOURCE_COLUMNS, rows = [sample_row, blank_row]\<rparr>"
  have p: "py_float exact_runtime (Scalar (CStr ''two hours'')) = Inl ValueError"
    by (simp add: exact_runtime_def parse_decimal_def is_digit_def)
  have a: "text_hours_row \<in> set (rows ?bad) \<and> \<not> list_all isna text_hours_row \<and>
    row_get (columns ?bad) text_hours_row ''EntryQuantity'' = Scalar (CStr ''two hours'') \<and>
    \<not> isna (CStr ''two hours'' :: rat cell) \<and>
    py_float exact_runtime (Scalar (CStr ''two hours'')) = Inl ValueError"
    using p by (simp add: text_hours_row_def row_get_normalized isna_def)
  have b: "(\<forall>key \<in> set [''TherapistName'', ''Date'', ''PlacementDesc'', ''EntryQuantity''].
       occurrences (columns ?good) key \<le> 1) \<and>
    (\<forall>row \<in> set (rows ?good). \<forall>q.
       row_get (columns ?good) row ''EntryQuantity'' = Scalar q \<longrightarrow>
         isna q \<or> (\<exists>x. py_float exact_runtime (Scalar q) = Inr x))"
  proof -
    have o: "\<forall>key \<in> set [''TherapistName'', ''Date'', ''PlacementDesc'', ''EntryQuantity''].
       occurrences (columns ?good) key \<le> 1"
      by (simp add: occurrences_def EXPECTED_SOURCE_COLUMNS_def)
    have s: "row_get (columns ?good) sample_row ''EntryQuantity'' = Scalar (CFloat (3 / 2))"
      by (simp add: sample_row_def row_get_normalized)
    have n: "row_get (columns ?good) blank_row ''EntryQuantity'' = Scalar CNaN"
      by (simp add: blank_row_def row_get_normalized)
    have f: "py_float exact_runtime (Scalar (CFloat (3 / 2))) = Inr (3 / 2)" by simp
    have "\<forall>q. row_get (columns ?good) sample_row ''EntryQuantity'' = Scalar q \<longrightarrow>
         isna q \<or> (\<exists>x. py_float exact_runtime (Scalar q) = Inr x)"
      unfolding s using f by blast
    moreover have "\<forall>q. row_get (columns ?good) blank_row ''EntryQuantity'' = Scalar q \<longrightarrow>
         isna q \<or> (\<exists>x. py_float exact_runtime (Scalar q) = Inr x)"
      unfolding n by (simp add: isna_def)
    ultimately show ?thesis using o by simp
  qed
  show ?thesis
    using C10_entry_quantity [of text_hours_row ?bad "CStr ''two hours''" exact_runtime ValueError] a
      C10_entry_quantity [of _ ?good _ exact_runtime] b
    by blast
qed

text \<open>
  C10 as stated fails on the frame that the loader returns for a sheet with two columns
  labelled \<open>Date\<close>: its only row has the hours 1, which \<open>float\<close> accepts, yet the
  transformer raises, since \<open>row.get("Date")\<close> is a \<open>Series\<close> there.
\<close>

theorem C10_counterexample:
  "load_source_dataframe duplicate_date_table = Inr duplicate_date_frame \<and>
   row_get (columns duplicate_date_frame)
     [CStr ''AB123456 Jane Doe'', CStr ''Ann'', CStr ''03/05/2024'', CStr ''03/06/2024'',
      CStr ''Speech'', CStr ''Std'', CInt 1, CInt 50, CInt 50] ''EntryQuantity'' = Scalar (CInt 1) \<and>
   py_float exact_runtime (Scalar (CInt 1)) = Inr 1 \<and>
   build_target_dataframe exact_runtime duplicate_date_frame = Inl ValueError"
proof -
  have l: "load_source_dataframe duplicate_date_table = Inr duplicate_date_frame"
    by (simp add: load_source_dataframe_def duplicate_date_table_def duplicate_date_frame_def
        EXPECTED_SOURCE_COLUMNS_def getitem_columns_def isna_def)
  have q: "row_get (columns duplicate_date_frame)
     [CStr ''AB123456 Jane Doe'', CStr ''Ann'', CStr ''03/05/2024'', CStr ''03/06/2024'',
      CStr ''Speech'', CStr ''Std'', CInt 1, CInt 50, CInt 50] ''EntryQuantity'' = Scalar (CInt 1)"
    by (simp add: duplicate_date_frame_def row_get_def)
  have f: "py_float exact_runtime (Scalar (CInt 1)) = Inr 1"
    by (simp add: exact_runtime_def)
  have d: "date_of_service exact_runtime (row_get (columns duplicate_date_frame)
     [CStr ''AB123456 Jane Doe'', CStr ''Ann'', CStr ''03/05/2024'', CStr ''03/06/2024'',
      CStr ''Speech'', CStr ''Std'', CInt 1, CInt 50, CInt 50] ''Date'') = Inl ValueError"
    by (simp add: duplicate_date_frame_def row_get_def date_of_service_def)
  have t: "clean_text exact_runtime (row_get (columns duplicate_date_frame)
     [CStr ''AB123456 Jane Doe'', CStr ''Ann'', CStr ''03/05/2024'', CStr ''03/06/2024'',
      CStr ''Speech'', CStr ''Std'', CInt 1, CInt 50, CInt 50] ''TherapistName'') = Inr ''Ann''"
    by (simp add: duplicate_date_frame_def row_get_def clean_text_Scalar py_strip_def py_isspace_def)
  have b: "build_record exact_runtime (columns duplicate_date_frame)
     [CStr ''AB123456 Jane Doe'', CStr ''Ann'', CStr ''03/05/2024'', CStr ''03/06/2024'',
      CStr ''Speech'', CStr ''Std'', CInt 1, CInt 50, CInt 50] = Inl ValueError"
    unfolding build_record_def by (simp add: t d split_beta)
  have "build_target_dataframe exact_runtime duplicate_date_frame = Inl ValueError"
    unfolding build_target_dataframe_def
    using b by (simp add: duplicate_date_frame_def isna_def)
  with l q f show ?thesis by simp
qed

lemma set_getitem_columns:
  "set (getitem_columns headers keys row) =
     {v. \<exists>l. (l, v) \<in> set (zip headers row) \<and> l \<in> CStr ` set keys}"
proof -
  have "v \<in> set (getitem_columns headers keys row) \<longleftrightarrow>
        (\<exists>l. (l, v) \<in> set (zip headers row) \<and> l \<in> CStr ` set keys)" for v
  proof
    assume "v \<in> set (getitem_columns headers keys row)"
    then show "\<exists>l. (l, v) \<in> set (zip headers row) \<and> l \<in> CStr ` set keys"
      by (auto simp: getitem_columns_def)
  next
    assume "\<exists>l. (l, v) \<in> set (zip headers row) \<and> l \<in> CStr ` set keys"
    then obtain key where k: "key \<in> set keys" "(CStr key, v) \<in> set (zip headers row)"
      by auto
    then have "(CStr key, v) \<in> set (filter (\<lambda>(label, v). label = CStr key) (zip headers row))"
      by simp
    then have "v \<in> set (map snd (filter (\<lambda>(label, v). label = CStr key) (zip headers row)))"
      by force
    with k(1) show "v \<in> set (getitem_columns headers keys row)"
      unfolding getitem_columns_def by auto
  qed
  then show ?thesis by blast
qed

lemma selected_not_all_na:
  "\<not> list_all isna (getitem_columns headers EXPECTED_SOURCE_COLUMNS row) \<longleftrightarrow>
     has_required_value headers row"
  unfolding list_all_iff set_getitem_columns has_required_value_def by auto

lemma has_required_value_not_all_na:
  "has_required_value headers row \<Longrightarrow> \<not> list_all isna row"
  unfolding list_all_iff has_required_value_def by (auto dest: set_zip_rightD)

lemma surviving_rows:
  "filter (\<lambda>row. \<not> list_all isna (getitem_columns headers EXPECTED_SOURCE_COLUMNS row))
     (filter (\<lambda>row. \<not> list_all isna row) data) =
   filter (has_required_value headers) data"
  unfolding filter_filter
  by (rule filter_cong) (auto simp: selected_not_all_na has_required_value_not_all_na)

text \<open>
  Claim C2, amended. For a source table that the loader accepts and on which the
  transformer returns, the number of target records is the number of data rows (index 2
  onward) that hold a value under at least one required label; each such row yields
  exactly one record, the record of its cells under the required labels, and the records
  stand in the order of their rows.
\<close>

theorem C2_record_count:
  assumes "load_source_dataframe raw = Inr df"
    and "build_target_dataframe rt df = Inr recs"
  shows "length recs = length (filter (has_required_value (raw ! 1)) (drop 2 raw)) \<and>
         list_all2
           (\<lambda>row r. build_record rt (columns df)
                       (getitem_columns (raw ! 1) EXPECTED_SOURCE_COLUMNS row) = Inr r)
           (filter (has_required_value (raw ! 1)) (drop 2 raw)) recs"
proof -
  let ?h = "raw ! 1"
  let ?sel = "getitem_columns ?h EXPECTED_SOURCE_COLUMNS"
  let ?body = "filter (\<lambda>row. \<not> list_all isna row) (drop 2 raw)"
  have rws: "rows df = map ?sel ?body"
    using assms(1) by (auto simp: load_source_dataframe_def Let_def split: if_splits)
  from assms(2) obtain new where new: "recs = [] @ new"
    and all2: "list_all2 (\<lambda>row r. build_record rt (columns df) row = Inr r)
                 (filter (\<lambda>row. \<not> list_all isna row) (rows df)) new"
    unfolding build_target_dataframe_def using build_rows_Inr by blast
  have "filter (\<lambda>row. \<not> list_all isna row) (map ?sel ?body) =
        map ?sel (filter (\<lambda>row. \<not> list_all isna (?sel row)) ?body)"
    by (simp add: filter_map comp_def)
  also have "\<dots> = map ?sel (filter (has_required_value ?h) (drop 2 raw))"
    by (simp only: surviving_rows)
  finally have "list_all2 (\<lambda>row r. build_record rt (columns df) row = Inr r)
      (map ?sel (filter (has_required_value ?h) (drop 2 raw))) recs"
    using all2 new rws by simp
  then have l: "list_all2 (\<lambda>row r. build_record rt (columns df) (?sel row) = Inr r)
      (filter (has_required_value ?h) (drop 2 raw)) recs"
    by (simp add: list_all2_map1)
  then have "length (filter (has_required_value ?h) (drop 2 raw)) = length recs"
    by (rule list_all2_lengthD)
  with l show ?thesis by simp
qed

lemma load_sample_table:
  "load_source_dataframe sample_table =
     Inr \<lparr>columns = map CStr EXPECTED_SOURCE_COLUMNS, rows = [sample_row, replicate 8 CNaN, blank_row]\<rparr>"
  by (simp add: load_source_dataframe_def sample_table_def full_header_def sample_row_def
      blank_row_def EXPECTED_SOURCE_COLUMNS_def getitem_columns_def isna_def numeral_eq_Suc)

lemma build_sample_frame:
  "build_target_dataframe exact_runtime
     \<lparr>columns = map CStr EXPECTED_SOURCE_COLUMNS, rows = [sample_row, replicate 8 CNaN, blank_row]\<rparr> =
   Inr [\<lparr>Therapist_Name = ''Ann Lee'', Date_of_Service = ''03/05/2024'',
         PA_Cyber_Student_ID = ''AB123456'', Student_Name = ''Jane Doe'',
         Service = ''Speech Therapy'', Minutes_on_IEP = VFloat 90\<rparr>,
        \<lparr>Therapist_Name = ''nan'', Date_of_Service = ''2024-03-05'',
         PA_Cyber_Student_ID = ''AB123456'', Student_Name = ''Jane Doe'',
         Service = ''nan'', Minutes_on_IEP = VStr []\<rparr>]"
proof -
  have s: "\<not> list_all isna sample_row" "\<not> list_all isna blank_row"
    by (simp_all add: sample_row_def blank_row_def isna_def)
  have n: "list_all isna (replicate 8 (CNaN :: rat cell))"
    by (simp add: list_all_iff isna_def)
  show ?thesis
    by (simp add: build_target_dataframe_def s n sample_record blank_record)
qed

text \<open>
  C2 on the sample sheet: of its four data rows three are not empty and two hold a value
  under a required label, and two records are produced.
\<close>

theorem C2_record_count_witness:
  "length (filter (\<lambda>row. \<not> list_all isna row) (drop 2 sample_table)) = 3 \<and>
   length (filter (has_required_value (sample_table ! 1)) (drop 2 sample_table)) = 2 \<and>
   (\<exists>df recs. load_source_dataframe sample_table = Inr df \<and>
       build_target_dataframe exact_runtime df = Inr recs \<and> length recs = 2)"
proof -
  have "length (filter (\<lambda>row. \<not> list_all isna row) (drop 2 sample_table)) = 3"
    by (simp add: sample_table_def sample_row_def blank_row_def isna_def numeral_eq_Suc)
  moreover have "length (filter (has_required_value (sample_table ! 1)) (drop 2 sample_table)) = 2"
    using C2_record_count [OF load_sample_table build_sample_frame] by simp
  ultimately show ?thesis
    using load_sample_table build_sample_frame by simp
qed

text \<open>
  C2 as stated fails on a sheet whose only data row holds a note and nothing under the
  required labels: the row is not empty, the loader keeps it, and the transformer skips
  it, so one such row gives no record.
\<close>

theorem C2_counterexample:
  "load_source_dataframe notes_only_table =
     Inr \<lparr>columns = map CStr EXPECTED_SOURCE_COLUMNS, rows = [replicate 8 CNaN]\<rparr> \<and>
   build_target_dataframe exact_runtime
     \<lparr>columns = map CStr EXPECTED_SOURCE_COLUMNS, rows = [replicate 8 CNaN]\<rparr> = Inr [] \<and>
   length (filter (\<lambda>row. \<not> list_all isna row) (drop 2 notes_only_table)) = 1"
proof -
  have n: "list_all isna (replicate 8 (CNaN :: rat cell))"
    by (simp add: list_all_iff isna_def)
  have "load_source_dataframe notes_only_table =
     Inr \<lparr>columns = map CStr EXPECTED_SOURCE_COLUMNS, rows = [replicate 8 CNaN]\<rparr>"
    by (simp add: load_source_dataframe_def notes_only_table_def full_header_def
        EXPECTED_SOURCE_COLUMNS_def getitem_columns_def isna_def numeral_eq_Suc)
  moreover have "length (filter (\<lambda>row. \<not> list_all isna row) (drop 2 notes_only_table)) = 1"
    by (simp add: notes_only_table_def isna_def numeral_eq_Suc)
  ultimately show ?thesis
    by (simp add: build_target_dataframe_def n)
qed

section \<open>The template writer: claim C6\<close>

lemma digit_char_inj: "digit_char a = digit_char b \<Longrightarrow> a mod 10 = b mod 10"
proof -
  assume a: "digit_char a = digit_char b"
  have d: "distinct ''0123456789''" by simp
  have l: "a mod 10 < length ''0123456789''" "b mod 10 < length ''0123456789''" by simp_all
  from a have "''0123456789'' ! (a mod 10) = ''0123456789'' ! (b mod 10)"
    by (simp add: digit_char_def)
  with d l show ?thesis by (simp only: nth_eq_iff_index_eq)
qed

lemma show_nat_nonempty: "show_nat n \<noteq> []"
  by (subst show_nat.simps) simp

lemma show_nat_inj: "show_nat a = show_nat b \<Longrightarrow> a = b"
proof (induction a arbitrary: b rule: show_nat.induct)
  case (1 a)
  show ?case
  proof (cases "a < 10")
    case a: True
    show ?thesis
    proof (cases "b < 10")
      case True
      with a "1.prems" have "digit_char a = digit_char b"
        by (simp add: show_nat.simps)
      then have "a mod 10 = b mod 10" by (rule digit_char_inj)
      with a True show ?thesis by simp
    next
      case False
      then have "show_nat b = show_nat (b div 10) @ [digit_char (b mod 10)]"
        by (subst show_nat.simps) simp
      moreover have "show_nat a = [digit_char a]"
        using a by (simp add: show_nat.simps)
      ultimately show ?thesis using "1.prems" show_nat_nonempty [of "b div 10"] by simp
    qed
  next
    case a: False
    then have ea: "show_nat a = show_nat (a div 10) @ [digit_char (a mod 10)]"
      by (subst show_nat.simps) simp
    show ?thesis
    proof (cases "b < 10")
      case True
      then have "show_nat b = [digit_char b]" by (simp add: show_nat.simps)
      with ea show ?thesis using "1.prems" show_nat_nonempty [of "a div 10"] by simp
    next
      case False
      then have "show_nat b = show_nat (b div 10) @ [digit_char (b mod 10)]"
        by (subst show_nat.simps) simp
      with ea "1.prems" have s: "show_nat (a div 10) = show_nat (b div 10)"
        and d: "digit_char (a mod 10) = digit_char (b mod 10)"
        by simp_all
      from a s have "a div 10 = b div 10" by (intro "1.IH") simp_all
      moreover have "a mod 10 = b mod 10"
      proof -
        from d have "a mod 10 mod 10 = b mod 10 mod 10" by (rule digit_char_inj)
        then show ?thesis by simp
      qed
      ultimately show ?thesis by (metis div_mult_mod_eq)
    qed
  qed
qed

lemma column_letter:
  "j < 6 \<Longrightarrow> column_letters ! j = [''ABCDEF'' ! j]"
proof -
  assume "j < 6"
  then consider "j = 0" | "j = 1" | "j = 2" | "j = 3" | "j = 4" | "j = 5" by linarith
  then show ?thesis by cases (simp_all add: column_letters_def)
qed

lemma coordinate_inj:
  assumes "j < 6" "j' < 6"
  shows "column_letters ! j @ show_nat r = column_letters ! j' @ show_nat r' \<longleftrightarrow> j = j' \<and> r = r'"
proof -
  have d: "distinct ''ABCDEF''" by simp
  have l: "j < length ''ABCDEF''" "j' < length ''ABCDEF''" using assms by simp_all
  have "''ABCDEF'' ! j = ''ABCDEF'' ! j' \<longleftrightarrow> j = j'"
    using d l by (simp only: nth_eq_iff_index_eq)
  then show ?thesis
    using assms show_nat_inj by (auto simp: column_letter)
qed

lemma write_cells_result:
  "j + length vs \<le> 6 \<Longrightarrow>
   \<exists>ws'. write_cells ws r j vs = Inr ws' \<and>
         (\<forall>k < length vs. ws' (column_letters ! (j + k) @ show_nat r) = written (vs ! k)) \<and>
         (\<forall>c. (\<forall>k < length vs. c \<noteq> column_letters ! (j + k) @ show_nat r) \<longrightarrow> ws' c = ws c)"
proof (induction vs arbitrary: ws j)
  case Nil
  then show ?case by simp
next
  case (Cons v vs)
  let ?ws1 = "ws (column_letters ! j @ show_nat r := \<lparr>cell_value = Some v, fill_type = None\<rparr>)"
  from Cons.prems have j: "j < 6" and "Suc j + length vs \<le> 6" by simp_all
  from Cons.IH [OF this(2), of ?ws1] obtain ws' where
    w: "write_cells ?ws1 r (Suc j) vs = Inr ws'"
    and h: "\<forall>k < length vs. ws' (column_letters ! (Suc j + k) @ show_nat r) = written (vs ! k)"
    and f: "\<forall>c. (\<forall>k < length vs. c \<noteq> column_letters ! (Suc j + k) @ show_nat r) \<longrightarrow> ws' c = ?ws1 c"
    by blast
  have e: "write_cells ws r j (v # vs) = Inr ws'"
    using j w by (simp add: column_letters_def)
  have first: "ws' (column_letters ! j @ show_nat r) = written v"
  proof -
    have "\<forall>k < length vs. column_letters ! j @ show_nat r \<noteq> column_letters ! (Suc j + k) @ show_nat r"
    proof (intro allI impI)
      fix k assume "k < length vs"
      with Cons.prems have "Suc j + k < 6" by simp
      with j have "column_letters ! j @ show_nat r = column_letters ! (Suc j + k) @ show_nat r \<longleftrightarrow>
          j = Suc j + k \<and> r = r"
        by (rule coordinate_inj)
      then show "column_letters ! j @ show_nat r \<noteq> column_letters ! (Suc j + k) @ show_nat r"
        by simp
    qed
    with f have "ws' (column_letters ! j @ show_nat r) = ?ws1 (column_letters ! j @ show_nat r)"
      by blast
    then show ?thesis by (simp add: written_def)
  qed
  have hit: "\<forall>k < length (v # vs). ws' (column_letters ! (j + k) @ show_nat r) = written ((v # vs) ! k)"
  proof (intro allI impI)
    fix k assume "k < length (v # vs)"
    then show "ws' (column_letters ! (j + k) @ show_nat r) = written ((v # vs) ! k)"
      using first h by (cases k) simp_all
  qed
  have frame: "\<forall>c. (\<forall>k < length (v # vs). c \<noteq> column_letters ! (j + k) @ show_nat r) \<longrightarrow> ws' c = ws c"
  proof (intro allI impI)
    fix c assume a: "\<forall>k < length (v # vs). c \<noteq> column_letters ! (j + k) @ show_nat r"
    then have "c \<noteq> column_letters ! j @ show_nat r" by force
    moreover have "\<forall>k < length vs. c \<noteq> column_letters ! (Suc j + k) @ show_nat r"
    proof (intro allI impI)
      fix k assume "k < length vs"
      then have "Suc k < length (v # vs)" by simp
      with a have "c \<noteq> column_letters ! (j + Suc k) @ show_nat r" by blast
      then show "c \<noteq> column_letters ! (Suc j + k) @ show_nat r" by simp
    qed
    ultimately show "ws' c = ws c" using f by simp
  qed
  from e hit frame show ?case by blast
qed

lemma length_tolist: "length (tolist r) = 6"
  by (simp add: tolist_def)

lemma write_rows_result:
  "\<exists>ws'. write_rows ws r recs = Inr ws' \<and>
         (\<forall>i < length recs. \<forall>j < 6.
            ws' (column_letters ! j @ show_nat (r + i)) = written (tolist (recs ! i) ! j)) \<and>
         (\<forall>c. (\<forall>i < length recs. \<forall>j < 6. c \<noteq> column_letters ! j @ show_nat (r + i)) \<longrightarrow> ws' c = ws c)"
proof (induction recs arbitrary: ws r)
  case Nil
  then show ?case by simp
next
  case (Cons x recs)
  have "0 + length (tolist x) \<le> 6" by (simp add: length_tolist)
  from write_cells_result [OF this, of ws r] obtain ws1 where
    w1: "write_cells ws r 0 (tolist x) = Inr ws1"
    and h1: "\<forall>k < 6. ws1 (column_letters ! k @ show_nat r) = written (tolist x ! k)"
    and f1: "\<forall>c. (\<forall>k < 6. c \<noteq> column_letters ! k @ show_nat r) \<longrightarrow> ws1 c = ws c"
    by (auto simp: length_tolist)
  from Cons.IH [of ws1 "Suc r"] obtain ws' where
    w: "write_rows ws1 (Suc r) recs = Inr ws'"
    and h: "\<forall>i < length recs. \<forall>j < 6.
            ws' (column_letters ! j @ show_nat (Suc r + i)) = written (tolist (recs ! i) ! j)"
    and f: "\<forall>c. (\<forall>i < length recs. \<forall>j < 6. c \<noteq> column_letters ! j @ show_nat (Suc r + i)) \<longrightarrow> ws' c = ws1 c"
    by blast
  have e: "write_rows ws r (x # recs) = Inr ws'"
    using w1 w by simp
  have hit: "\<forall>i < length (x # recs). \<forall>j < 6.
      ws' (column_letters ! j @ show_nat (r + i)) = written (tolist ((x # recs) ! i) ! j)"
  proof (intro allI impI)
    fix i j assume i: "i < length (x # recs)" and j: "j < (6 :: nat)"
    show "ws' (column_letters ! j @ show_nat (r + i)) = written (tolist ((x # recs) ! i) ! j)"
    proof (cases i)
      case 0
      have "\<forall>i' < length recs. \<forall>j' < 6.
          column_letters ! j @ show_nat r \<noteq> column_letters ! j' @ show_nat (Suc r + i')"
      proof (intro allI impI)
        fix i' j' assume "i' < length recs" and j': "j' < (6 :: nat)"
        from j j' have "column_letters ! j @ show_nat r = column_letters ! j' @ show_nat (Suc r + i') \<longleftrightarrow>
            j = j' \<and> r = Suc r + i'"
          by (rule coordinate_inj)
        then show "column_letters ! j @ show_nat r \<noteq> column_letters ! j' @ show_nat (Suc r + i')"
          by simp
      qed
      with f have "ws' (column_letters ! j @ show_nat r) = ws1 (column_letters ! j @ show_nat r)"
        by blast
      with h1 j 0 show ?thesis by simp
    next
      case (Suc i')
      with i h j show ?thesis by simp
    qed
  qed
  have frame: "\<forall>c. (\<forall>i < length (x # recs). \<forall>j < 6. c \<noteq> column_letters ! j @ show_nat (r + i)) \<longrightarrow>
      ws' c = ws c"
  proof (intro allI impI)
    fix c assume a: "\<forall>i < length (x # recs). \<forall>j < 6. c \<noteq> column_letters ! j @ show_nat (r + i)"
    then have "\<forall>j < 6. c \<noteq> column_letters ! j @ show_nat r" by force
    with f1 have c1: "ws1 c = ws c" by blast
    have "\<forall>i < length recs. \<forall>j < 6. c \<noteq> column_letters ! j @ show_nat (Suc r + i)"
    proof (intro allI impI)
      fix i j assume "i < length recs" and j: "j < (6 :: nat)"
      then have "Suc i < length (x # recs)" by simp
      with a j have "c \<noteq> column_letters ! j @ show_nat (r + Suc i)" by blast
      then show "c \<noteq> column_letters ! j @ show_nat (Suc r + i)" by simp
    qed
    with f c1 show "ws' c = ws c" by simp
  qed
  from e hit frame show ?case by blast
qed

text \<open>
  Claim C6. For every sequence of target records and every template sheet, the writer
  returns a sheet in which record \<open>i\<close> (counted from 0) stands in row \<open>7 + i\<close>: its
  therapist name in column A, date of service in B, student id in C, student name in D,
  service in E and minutes in F, each cell holding the value and having no fill. Every
  cell outside these coordinates is as in the template.
\<close>

theorem C6_write_to_template:
  "\<exists>ws'. write_to_template recs ws = Inr ws' \<and>
     (\<forall>i < length recs.
        ws' (''A'' @ show_nat (7 + i)) = \<lparr>cell_value = Some (VStr (Therapist_Name (recs ! i))), fill_type = None\<rparr> \<and>
        ws' (''B'' @ show_nat (7 + i)) = \<lparr>cell_value = Some (VStr (Date_of_Service (recs ! i))), fill_type = None\<rparr> \<and>
        ws' (''C'' @ show_nat (7 + i)) = \<lparr>cell_value = Some (VStr (PA_Cyber_Student_ID (recs ! i))), fill_type = None\<rparr> \<and>
        ws' (''D'' @ show_nat (7 + i)) = \<lparr>cell_value = Some (VStr (Student_Name (recs ! i))), fill_type = None\<rparr> \<and>
        ws' (''E'' @ show_nat (7 + i)) = \<lparr>cell_value = Some (VStr (Service (recs ! i))), fill_type = None\<rparr> \<and>
        ws' (''F'' @ show_nat (7 + i)) = \<lparr>cell_value = Some (Minutes_on_IEP (recs ! i)), fill_type = None\<rparr>) \<and>
     (\<forall>c. (\<forall>i < length recs. \<forall>j < 6. c \<noteq> column_letters ! j @ show_nat (7 + i)) \<longrightarrow> ws' c = ws c)"
proof -
  from write_rows_result [of ws 7 recs] obtain ws' where
    w: "write_rows ws 7 recs = Inr ws'"
    and h: "\<forall>i < length recs. \<forall>j < 6.
            ws' (column_letters ! j @ show_nat (7 + i)) = written (tolist (recs ! i) ! j)"
    and f: "\<forall>c. (\<forall>i < length recs. \<forall>j < 6. c \<noteq> column_letters ! j @ show_nat (7 + i)) \<longrightarrow> ws' c = ws c"
    by blast
  have e: "write_to_template recs ws = Inr ws'"
    using w by (simp add: write_to_template_def start_row_def)
  have cells: "ws' (''A'' @ show_nat (7 + i)) = \<lparr>cell_value = Some (VStr (Therapist_Name (recs ! i))), fill_type = None\<rparr> \<and>
        ws' (''B'' @ show_nat (7 + i)) = \<lparr>cell_value = Some (VStr (Date_of_Service (recs ! i))), fill_type = None\<rparr> \<and>
        ws' (''C'' @ show_nat (7 + i)) = \<lparr>cell_value = Some (VStr (PA_Cyber_Student_ID (recs ! i))), fill_type = None\<rparr> \<and>
        ws' (''D'' @ show_nat (7 + i)) = \<lparr>cell_value = Some (VStr (Student_Name (recs ! i))), fill_type = None\<rparr> \<and>
        ws' (''E'' @ show_nat (7 + i)) = \<lparr>cell_value = Some (VStr (Service (recs ! i))), fill_type = None\<rparr> \<and>
        ws' (''F'' @ show_nat (7 + i)) = \<lparr>cell_value = Some (Minutes_on_IEP (recs ! i)), fill_type = None\<rparr>"
    if i: "i < length recs" for i
  proof -
    have c: "ws' (column_letters ! j @ show_nat (7 + i)) = written (tolist (recs ! i) ! j)" if "j < 6" for j
      using h i that by blast
    from c [of 0] c [of 1] c [of 2] c [of 3] c [of 4] c [of 5] show ?thesis
      by (simp add: column_letters_def tolist_def written_def)
  qed
  from e cells f show ?thesis by blast
qed

text \<open>
  C6 on two records and a template whose cells are all filled solid: rows 7 and 8 are
  written and cleared, row 9 and column G keep the template's fill.
\<close>

theorem C6_write_to_template_witness:
  "\<exists>ws'. write_to_template
            [\<lparr>Therapist_Name = ''Ann Lee'', Date_of_Service = ''03/05/2024'',
              PA_Cyber_Student_ID = ''AB123456'', Student_Name = ''Jane Doe'',
              Service = ''Speech Therapy'', Minutes_on_IEP = VFloat 90\<rparr>,
             \<lparr>Therapist_Name = ''nan'', Date_of_Service = ''2024-03-05'',
              PA_Cyber_Student_ID = ''AB123456'', Student_Name = ''Jane Doe'',
              Service = ''nan'', Minutes_on_IEP = VStr []\<rparr>]
            flagged_template = Inr ws' \<and>
      ws' ''A7'' = \<lparr>cell_value = Some (VStr ''Ann Lee''), fill_type = None\<rparr> \<and>
      ws' ''F7'' = \<lparr>cell_value = Some (VFloat 90), fill_type = None\<rparr> \<and>
      ws' ''C8'' = \<lparr>cell_value = Some (VStr ''AB123456''), fill_type = None\<rparr> \<and>
      ws' ''F8'' = \<lparr>cell_value = Some (VStr []), fill_type = None\<rparr> \<and>
      ws' ''A9'' = \<lparr>cell_value = None, fill_type = Some ''solid''\<rparr>"
proof -
  let ?recs = "[\<lparr>Therapist_Name = ''Ann Lee'', Date_of_Service = ''03/05/2024'',
              PA_Cyber_Student_ID = ''AB123456'', Student_Name = ''Jane Doe'',
              Service = ''Speech Therapy'', Minutes_on_IEP = VFloat (90 :: rat)\<rparr>,
             \<lparr>Therapist_Name = ''nan'', Date_of_Service = ''2024-03-05'',
              PA_Cyber_Student_ID = ''AB123456'', Student_Name = ''Jane Doe'',
              Service = ''nan'', Minutes_on_IEP = VStr []\<rparr>]"
  from C6_write_to_template [of ?recs flagged_template] obtain ws' where
    w: "write_to_template ?recs flagged_template = Inr ws'"
    and h: "\<forall>i < length ?recs.
        ws' (''A'' @ show_nat (7 + i)) = \<lparr>cell_value = Some (VStr (Therapist_Name (?recs ! i))), fill_type = None\<rparr> \<and>
        ws' (''B'' @ show_nat (7 + i)) = \<lparr>cell_value = Some (VStr (Date_of_Service (?recs ! i))), fill_type = None\<rparr> \<and>
        ws' (''C'' @ show_nat (7 + i)) = \<lparr>cell_value = Some (VStr (PA_Cyber_Student_ID (?recs ! i))), fill_type = None\<rparr> \<and>
        ws' (''D'' @ show_nat (7 + i)) = \<lparr>cell_value = Some (VStr (Student_Name (?recs ! i))), fill_type = None\<rparr> \<and>
        ws' (''E'' @ show_nat (7 + i)) = \<lparr>cell_value = Some (VStr (Service (?recs ! i))), fill_type = None\<rparr> \<and>
        ws' (''F'' @ show_nat (7 + i)) = \<lparr>cell_value = Some (Minutes_on_IEP (?recs ! i)), fill_type = None\<rparr>"
    and f: "\<forall>c. (\<forall>i < length ?recs. \<forall>j < 6. c \<noteq> column_letters ! j @ show_nat (7 + i)) \<longrightarrow>
        ws' c = flagged_template c"
    by blast
  have n: "show_nat 7 = ''7''" "show_nat 8 = ''8''" "show_nat 9 = ''9''"
    by (simp_all add: show_nat.simps digit_char_def)
  from h have r7: "ws' ''A7'' = \<lparr>cell_value = Some (VStr ''Ann Lee''), fill_type = None\<rparr>"
    "ws' ''F7'' = \<lparr>cell_value = Some (VFloat 90), fill_type = None\<rparr>"
    using n(1) by (auto dest!: spec [of _ 0])
  from h have r8: "ws' ''C8'' = \<lparr>cell_value = Some (VStr ''AB123456''), fill_type = None\<rparr>"
    "ws' ''F8'' = \<lparr>cell_value = Some (VStr []), fill_type = None\<rparr>"
    using n(2) by (auto dest!: spec [of _ 1])
  have "\<forall>i < length ?recs. \<forall>j < 6. ''A9'' \<noteq> column_letters ! j @ show_nat (7 + i)"
  proof (intro allI impI)
    fix i j assume i: "i < length ?recs" and j: "j < (6 :: nat)"
    have "column_letters ! 0 @ show_nat 9 = column_letters ! j @ show_nat (7 + i) \<longleftrightarrow> 0 = j \<and> 9 = 7 + i"
      using j by (intro coordinate_inj) simp_all
    with i show "''A9'' \<noteq> column_letters ! j @ show_nat (7 + i)"
      by (simp add: n column_letters_def)
  qed
  with f have "ws' ''A9'' = flagged_template ''A9''" by blast
  then have r9: "ws' ''A9'' = \<lparr>cell_value = None, fill_type = Some ''solid''\<rparr>"
    by (simp add: flagged_template_def)
  from w r7 r8 r9 show ?thesis by blast
qed

end
